theory Spec2Isabelle
  imports Main "HOL-Library.Product_Lexorder" "HOL-Library.List_Lexorder" "HOL-Library.Char_ord"
begin

section \<open>Data model of build\_database.py\<close>

text \<open>
  An address range is the Python tuple \<open>(start, end)\<close> of two unbounded integers.
  Tuples compare lexicographically, which is the order of \<open>Product_Lexorder\<close>;
  country codes are Python strings, compared by code point (\<open>List_Lexorder\<close>,
  \<open>Char_ord\<close>).
\<close>

type_synonym range = "int \<times> int"

text \<open>An output entry is the three-element list \<open>[s, e, country]\<close>.\<close>

type_synonym entry = "int \<times> int \<times> string"

definition TIER1_COUNTRIES :: "string set" where
  "TIER1_COUNTRIES = {''CN'', ''HK'', ''JP'', ''KR'', ''US'', ''AU'', ''NZ'', ''SG''}"

definition TIER2_COUNTRIES :: "string set" where
  "TIER2_COUNTRIES = {''DE'', ''GB'', ''FR'', ''RU'', ''IN'', ''CA'', ''IT'', ''NL'', ''TW''}"

definition OTHER_COUNTRY_CODE :: string where
  "OTHER_COUNTRY_CODE = ''ZZ''"

section \<open>The merger: tiered\_merge\_ranges\<close>

text \<open>
  The \<open>if/elif/else\<close> that picks \<open>merge_threshold\<close> from \<open>tier_level\<close> inside the
  loop body; every level other than 1 and 2 takes the last branch.
\<close>

definition merge_threshold :: "int \<Rightarrow> int" where
  "merge_threshold tier_level =
     (if tier_level = 1 then 1
      else if tier_level = 2 then 262144
      else 16777216)"

text \<open>
  The loop \<open>for s, e in ranges[1:]\<close> with its three variables \<open>cs\<close>, \<open>ce\<close> and
  \<open>merged\<close>, followed by the final \<open>merged.append((cs, ce))\<close>.
\<close>

fun sweep :: "int \<Rightarrow> range list \<Rightarrow> int \<Rightarrow> int \<Rightarrow> range list \<Rightarrow> range list" where
  "sweep tier_level [] cs ce merged = merged @ [(cs, ce)]"
| "sweep tier_level ((s, e) # rest) cs ce merged =
     (if s - ce \<le> merge_threshold tier_level
      then (if e > ce then sweep tier_level rest cs e merged
            else sweep tier_level rest cs ce merged)
      else sweep tier_level rest s e (merged @ [(cs, ce)]))"

text \<open>
  \<open>tiered_merge_ranges(ranges, tier_level)\<close>: empty input returns \<open>[]\<close>; otherwise
  \<open>ranges.sort()\<close>, \<open>cs, ce = ranges[0]\<close> and the sweep over \<open>ranges[1:]\<close>. The sorted
  list of a non-empty list is non-empty, so \<open>ranges[0]\<close> cannot raise; the \<open>[]\<close> branch
  of the case below is never taken.
\<close>

definition tiered_merge_ranges :: "range list \<Rightarrow> int \<Rightarrow> range list" where
  "tiered_merge_ranges ranges tier_level =
     (if ranges = [] then []
      else (case sort ranges of
              [] \<Rightarrow> []
            | (cs, ce) # rest \<Rightarrow> sweep tier_level rest cs ce []))"

section \<open>The classifier: the row loop of main\<close>

text \<open>
  A row of \<open>csv.DictReader\<close> is a dictionary from column names to values; a value is a
  string, or \<open>None\<close> for a field missing from a short row.
\<close>

datatype pyval = PyNone | PyStr string

type_synonym row = "string \<rightharpoonup> pyval"

text \<open>
  The exceptions of the row loop: the three that the body of the inner \<open>try\<close> can raise,
  and the two that the reader can raise while it fetches a row (undecodable bytes of the
  file opened as UTF-8, and a malformed or oversized field).
\<close>

datatype py_error = KeyError | AttributeError | ValueError | UnicodeDecodeError | CsvError

text \<open>\<open>row.get(key)\<close>: the value, or \<open>None\<close> for an absent key.\<close>

definition row_get :: "row \<Rightarrow> string \<Rightarrow> pyval" where
  "row_get r key = (case r key of None \<Rightarrow> PyNone | Some v \<Rightarrow> v)"

text \<open>Python truthiness of a value: \<open>None\<close> and the empty string are false.\<close>

definition truthy :: "pyval \<Rightarrow> bool" where
  "truthy v = (case v of PyNone \<Rightarrow> False | PyStr s \<Rightarrow> s \<noteq> [])"

definition py_or :: "pyval \<Rightarrow> pyval \<Rightarrow> pyval" where
  "py_or a b = (if truthy a then a else b)"

text \<open>
  Lines 160--161: \<open>geoname_id = row.get('registered_country_geoname_id') or
  row.get('geoname_id')\<close> and \<open>country = country_map.get(geoname_id, '')\<close>. The keys
  and values of \<open>country_map\<close> come from another \<open>DictReader\<close>, so both are values of
  \<open>pyval\<close>.
\<close>

definition lookup_country :: "(pyval \<rightharpoonup> pyval) \<Rightarrow> row \<Rightarrow> pyval" where
  "lookup_country country_map r =
     (let geoname_id = py_or (row_get r ''registered_country_geoname_id'')
                             (row_get r ''geoname_id'')
      in case country_map geoname_id of None \<Rightarrow> PyStr [] | Some country \<Rightarrow> country)"

text \<open>
  Lines 166--167: \<open>net = ip_network(row['network'].strip())\<close> and \<open>start, end =
  int(net.network_address), int(net.broadcast_address)\<close>. \<open>row['network']\<close> raises
  \<open>KeyError\<close> for an absent column and \<open>.strip()\<close> raises \<open>AttributeError\<close> on
  \<open>None\<close>. \<open>ip_network\<close> belongs to Python's standard library, not to this
  repository: it is the parameter \<open>ip_network\<close>, which maps the text of the field to
  the pair (network address, broadcast address) and is \<open>None\<close> where the library
  raises \<open>ValueError\<close>.
\<close>

definition parse_network :: "(string \<Rightarrow> range option) \<Rightarrow> row \<Rightarrow> py_error + range" where
  "parse_network ip_network r =
     (case r ''network'' of
        None \<Rightarrow> Inl KeyError
      | Some PyNone \<Rightarrow> Inl AttributeError
      | Some (PyStr text) \<Rightarrow>
          (case ip_network text of None \<Rightarrow> Inl ValueError | Some se \<Rightarrow> Inr se))"

text \<open>The three buckets \<open>tier1_data\<close>, \<open>tier2_data\<close> (dictionaries) and \<open>tier3_data\<close>.\<close>

record buckets =
  tier1_data :: "string \<rightharpoonup> range list"
  tier2_data :: "string \<rightharpoonup> range list"
  tier3_data :: "range list"

text \<open>Lines 150--152: one empty list per configured code, and an empty tier-3 list.\<close>

definition init_buckets :: buckets where
  "init_buckets =
     \<lparr> tier1_data = (\<lambda>c. if c \<in> TIER1_COUNTRIES then Some [] else None),
       tier2_data = (\<lambda>c. if c \<in> TIER2_COUNTRIES then Some [] else None),
       tier3_data = [] \<rparr>"

text \<open>
  The body of the \<open>try\<close> block (lines 166--174) for a row whose country is the
  non-empty string \<open>country\<close>. An indexing \<open>tier1_data[country]\<close> on an absent key would
  raise \<open>KeyError\<close>.
\<close>

definition try_body :: "(string \<Rightarrow> range option) \<Rightarrow> buckets \<Rightarrow> string \<Rightarrow> row \<Rightarrow> py_error + buckets" where
  "try_body ip_network b country r =
     (case parse_network ip_network r of
        Inl err \<Rightarrow> Inl err
      | Inr se \<Rightarrow>
          (if country \<in> TIER1_COUNTRIES then
             (case tier1_data b country of
                None \<Rightarrow> Inl KeyError
              | Some l \<Rightarrow> Inr (b\<lparr>tier1_data := (tier1_data b)(country \<mapsto> l @ [se])\<rparr>))
           else if country \<in> TIER2_COUNTRIES then
             (case tier2_data b country of
                None \<Rightarrow> Inl KeyError
              | Some l \<Rightarrow> Inr (b\<lparr>tier2_data := (tier2_data b)(country \<mapsto> l @ [se])\<rparr>))
           else Inr (b\<lparr>tier3_data := tier3_data b @ [se]\<rparr>)))"

text \<open>
  One iteration of the row loop (lines 160--176): \<open>if not country: continue\<close>, then the
  \<open>try\<close> block, whose bare \<open>except: continue\<close> discards every exception and leaves
  the buckets as they were.
\<close>

definition classify_row :: "(pyval \<rightharpoonup> pyval) \<Rightarrow> (string \<Rightarrow> range option) \<Rightarrow> buckets \<Rightarrow> row \<Rightarrow> buckets" where
  "classify_row country_map ip_network b r =
     (case lookup_country country_map r of
        PyNone \<Rightarrow> b
      | PyStr country \<Rightarrow>
          (if country = [] then b
           else (case try_body ip_network b country r of
                   Inl err \<Rightarrow> b
                 | Inr b' \<Rightarrow> b')))"

text \<open>The row loop over rows that the reader has delivered, one iteration per row.\<close>

definition classify_rows :: "(pyval \<rightharpoonup> pyval) \<Rightarrow> (string \<Rightarrow> range option) \<Rightarrow> buckets \<Rightarrow> row list \<Rightarrow> buckets" where
  "classify_rows country_map ip_network b rows = foldl (classify_row country_map ip_network) b rows"

text \<open>
  The row loop with its iterator (line 156). Each item is what one step of the reader
  gives: a row, or an exception. The iterator is advanced outside the inner \<open>try\<close>
  (lines 165--176), so an exception of the reader leaves the loop; it reaches the outer
  handler of \<open>main\<close> (line 261), which ends the run with exit status 1.
\<close>

fun classify_reader :: "(pyval \<rightharpoonup> pyval) \<Rightarrow> (string \<Rightarrow> range option) \<Rightarrow> buckets \<Rightarrow> (py_error + row) list \<Rightarrow> py_error + buckets" where
  "classify_reader country_map ip_network b [] = Inr b"
| "classify_reader country_map ip_network b (Inl err # items) = Inl err"
| "classify_reader country_map ip_network b (Inr r # items) =
     classify_reader country_map ip_network (classify_row country_map ip_network b r) items"

section \<open>The assembler: steps 4 and 5 of main\<close>

text \<open>\<open>for s, e in merged: all_entries.append([s, e, country])\<close>.\<close>

definition tag_entries :: "string \<Rightarrow> range list \<Rightarrow> entry list" where
  "tag_entries country merged = map (\<lambda>(s, e). (s, e, country)) merged"

text \<open>
  The loops of steps 4.1 and 4.2 have the same body; they differ in the dictionary, the
  sorted list of codes and the tier level, which are the parameters here. An absent key
  would raise \<open>KeyError\<close>, which leaves \<open>main\<close> through its outer handler.
\<close>

fun merge_countries :: "int \<Rightarrow> (string \<rightharpoonup> range list) \<Rightarrow> string list \<Rightarrow> entry list \<Rightarrow> py_error + entry list" where
  "merge_countries tier_level data [] all_entries = Inr all_entries"
| "merge_countries tier_level data (country # countries) all_entries =
     (case data country of
        None \<Rightarrow> Inl KeyError
      | Some ranges \<Rightarrow>
          (if ranges = [] then merge_countries tier_level data countries all_entries
           else merge_countries tier_level data countries
                  (all_entries @ tag_entries country (tiered_merge_ranges ranges tier_level))))"

text \<open>Step 4.3: the tier-3 list, merged as a whole and tagged with the catch-all code.\<close>

definition merge_others :: "range list \<Rightarrow> entry list \<Rightarrow> entry list" where
  "merge_others tier3 all_entries =
     (if tier3 \<noteq> [] then all_entries @ tag_entries OTHER_COUNTRY_CODE (tiered_merge_ranges tier3 3)
      else all_entries)"

text \<open>
  Steps 4 and 5: the three merges in order, then \<open>all_entries.sort(key=lambda x: x[0])\<close>,
  a stable sort on the start address.
\<close>

definition build_table :: "buckets \<Rightarrow> py_error + entry list" where
  "build_table b =
     (case merge_countries 1 (tier1_data b) (sorted_list_of_set TIER1_COUNTRIES) [] of
        Inl err \<Rightarrow> Inl err
      | Inr entries1 \<Rightarrow>
          (case merge_countries 2 (tier2_data b) (sorted_list_of_set TIER2_COUNTRIES) entries1 of
             Inl err \<Rightarrow> Inl err
           | Inr entries2 \<Rightarrow> Inr (sort_key fst (merge_others (tier3_data b) entries2))))"

text \<open>Steps 3 to 5 of \<open>main\<close>, from the rows of the blocks file to the final table.\<close>

definition main_table :: "(pyval \<rightharpoonup> pyval) \<Rightarrow> (string \<Rightarrow> range option) \<Rightarrow> row list \<Rightarrow> py_error + entry list" where
  "main_table country_map ip_network rows =
     build_table (classify_rows country_map ip_network init_buckets rows)"

text \<open>
  Steps 3 to 5 of \<open>main\<close> from the items of the reader: an exception of the reader, or
  of the table builder, is the result of the run, which then writes no table.
\<close>

definition main_run :: "(pyval \<rightharpoonup> pyval) \<Rightarrow> (string \<Rightarrow> range option) \<Rightarrow> (py_error + row) list \<Rightarrow> py_error + entry list" where
  "main_run country_map ip_network items =
     (case classify_reader country_map ip_network init_buckets items of
        Inl err \<Rightarrow> Inl err
      | Inr b \<Rightarrow> build_table b)"

section \<open>The merger as the specification words it\<close>

text \<open>
  The sweep in the specification's words: the open interval \<open>(cs, ce)\<close> absorbs
  \<open>(s, e)\<close> when \<open>s - ce \<le> threshold\<close>, its end becoming \<open>max ce e\<close>; otherwise
  it is emitted and \<open>(s, e)\<close> opens the next one; the last open interval is emitted at
  the end.
\<close>

fun spec_sweep :: "int \<Rightarrow> range \<Rightarrow> range list \<Rightarrow> range list" where
  "spec_sweep threshold (cs, ce) [] = [(cs, ce)]"
| "spec_sweep threshold (cs, ce) ((s, e) # rest) =
     (if s - ce \<le> threshold then spec_sweep threshold (cs, max ce e) rest
      else (cs, ce) # spec_sweep threshold (s, e) rest)"

definition spec_merge :: "int \<Rightarrow> range list \<Rightarrow> range list" where
  "spec_merge threshold ranges =
     (case sort ranges of [] \<Rightarrow> [] | first # others \<Rightarrow> spec_sweep threshold first others)"

section \<open>Predicates of the claims\<close>

text \<open>Every consecutive pair of intervals is more than \<open>t\<close> apart.\<close>

fun gaps_exceed :: "int \<Rightarrow> range list \<Rightarrow> bool" where
  "gaps_exceed t [] = True"
| "gaps_exceed t [x] = True"
| "gaps_exceed t ((s1, e1) # (s2, e2) # rest) = (s2 - e1 > t \<and> gaps_exceed t ((s2, e2) # rest))"

text \<open>Every pair of the list satisfies \<open>start \<le> end\<close>.\<close>

definition valid_ranges :: "range list \<Rightarrow> bool" where
  "valid_ranges ranges = list_all (\<lambda>(s, e). s \<le> e) ranges"

text \<open>The set of addresses that a list of closed intervals covers.\<close>

definition coverage :: "range list \<Rightarrow> int set" where
  "coverage ranges = (\<Union>(s, e) \<in> set ranges. {s..e})"

text \<open>
  The addresses lying strictly between two ranges of the list whose distance, from the
  end of the first to the start of the second, is at most \<open>t\<close>: the gaps a merge with
  threshold \<open>t\<close> may bridge.
\<close>

definition gap_addresses :: "int \<Rightarrow> range list \<Rightarrow> int set" where
  "gap_addresses t ranges =
     {x. \<exists>(s1, e1) \<in> set ranges. \<exists>(s2, e2) \<in> set ranges. e1 < x \<and> x < s2 \<and> s2 - e1 \<le> t}"

text \<open>The fields of an entry, and the addresses of its closed interval.\<close>

definition entry_start :: "entry \<Rightarrow> int" where
  "entry_start x = fst x"

definition entry_end :: "entry \<Rightarrow> int" where
  "entry_end x = fst (snd x)"

definition entry_code :: "entry \<Rightarrow> string" where
  "entry_code x = snd (snd x)"

definition entry_addresses :: "entry \<Rightarrow> int set" where
  "entry_addresses x = {entry_start x..entry_end x}"

section \<open>Sample inputs\<close>

text \<open>
  A small run used in the concrete instances below: a locations mapping with China
  (tier 1) and Brazil (neither set, so tier 3), and rows of the blocks file. The sample
  \<open>ip_network\<close> gives Python's result on each field text it lists and raises on every other
  text, among them \<open>1.0.1.0/33\<close>, whose prefix length the library rejects.
\<close>

abbreviation sample_country_map :: "pyval \<rightharpoonup> pyval" where
  "sample_country_map \<equiv> [PyStr ''1814991'' \<mapsto> PyStr ''CN'', PyStr ''3469034'' \<mapsto> PyStr ''BR'']"

abbreviation sample_ip_network :: "string \<Rightarrow> range option" where
  "sample_ip_network \<equiv>
     (\<lambda>text. if text = ''1.0.0.0/24'' then Some (16777216, 16777471)
            else if text = ''1.0.1.0/24'' then Some (16777472, 16777727)
            else if text = ''1.0.2.0/24'' then Some (16777728, 16777983)
            else if text = ''1.0.4.0/22'' then Some (16778240, 16779263)
            else if text = ''1.0.8.0/21'' then Some (16779264, 16781311)
            else None)"

abbreviation row_br_a :: row where
  "row_br_a \<equiv> [''network'' \<mapsto> PyStr ''1.0.0.0/24'', ''geoname_id'' \<mapsto> PyStr ''3469034'']"

abbreviation row_cn_a :: row where
  "row_cn_a \<equiv> [''network'' \<mapsto> PyStr ''1.0.1.0/24'', ''geoname_id'' \<mapsto> PyStr ''1814991'']"

abbreviation row_br_b :: row where
  "row_br_b \<equiv> [''network'' \<mapsto> PyStr ''1.0.2.0/24'', ''geoname_id'' \<mapsto> PyStr ''3469034'']"

abbreviation row_cn_b :: row where
  "row_cn_b \<equiv> [''network'' \<mapsto> PyStr ''1.0.8.0/21'', ''geoname_id'' \<mapsto> PyStr ''1814991'']"

abbreviation row_join_miss :: row where
  "row_join_miss \<equiv> [''network'' \<mapsto> PyStr ''1.0.4.0/22'', ''geoname_id'' \<mapsto> PyStr ''2077456'']"

abbreviation row_bad_network :: row where
  "row_bad_network \<equiv> [''network'' \<mapsto> PyStr ''1.0.1.0/33'', ''geoname_id'' \<mapsto> PyStr ''1814991'']"

abbreviation sample_rows :: "row list" where
  "sample_rows \<equiv> [row_br_a, row_cn_a, row_br_b, row_cn_b]"

abbreviation sample_table :: "entry list" where
  "sample_table \<equiv>
     [(16777216, 16777983, ''ZZ''), (16777472, 16777727, ''CN''), (16779264, 16781311, ''CN'')]"

section \<open>Properties of the sweep\<close>

lemma sweep_spec_sweep:
  "sweep tier_level rest cs ce merged = merged @ spec_sweep (merge_threshold tier_level) (cs, ce) rest"
proof (induction rest arbitrary: cs ce merged)
  case Nil
  show ?case by simp
next
  case (Cons p rest)
  obtain s e where p: "p = (s, e)" by (cases p)
  show ?case unfolding p by (simp add: Cons.IH max_def)
qed

lemma tmr_spec_merge:
  "tiered_merge_ranges ranges tier_level = spec_merge (merge_threshold tier_level) ranges"
  by (cases "sort ranges")
     (auto simp: tiered_merge_ranges_def spec_merge_def sweep_spec_sweep split: list.splits)

lemma spec_sweep_length: "length (spec_sweep t x xs) \<le> Suc (length xs)"
proof (induction xs arbitrary: x)
  case Nil
  show ?case by (cases x) simp
next
  case (Cons p xs)
  obtain cs ce where x: "x = (cs, ce)" by (cases x)
  obtain s e where p: "p = (s, e)" by (cases p)
  show ?case unfolding x p using Cons.IH[of "(cs, max ce e)"] Cons.IH[of "(s, e)"]
    by (simp add: le_SucI)
qed

lemma spec_sweep_nonempty: "spec_sweep t x xs \<noteq> []"
proof (induction xs arbitrary: x)
  case Nil
  show ?case by (cases x) simp
next
  case (Cons p xs)
  obtain cs ce where x: "x = (cs, ce)" by (cases x)
  obtain s e where p: "p = (s, e)" by (cases p)
  show ?case unfolding x p using Cons.IH by simp
qed

lemma spec_sweep_mono_length:
  "t1 \<le> t2 \<Longrightarrow> ce1 \<le> ce2 \<Longrightarrow>
   length (spec_sweep t2 (cs2, ce2) xs) \<le> length (spec_sweep t1 (cs1, ce1) xs)"
proof (induction xs arbitrary: cs1 ce1 cs2 ce2)
  case Nil
  show ?case by simp
next
  case (Cons p xs)
  obtain s e where p: "p = (s, e)" by (cases p)
  show ?case
  proof (cases "s - ce2 \<le> t2")
    case absorb2: True
    show ?thesis
    proof (cases "s - ce1 \<le> t1")
      case True
      have "max ce1 e \<le> max ce2 e" using Cons.prems by simp
      from Cons.IH[OF Cons.prems(1) this, of cs2 cs1] show ?thesis
        unfolding p using absorb2 True by simp
    next
      case False
      have "e \<le> max ce2 e" by simp
      from Cons.IH[OF Cons.prems(1) this, of cs2 s] show ?thesis
        unfolding p using absorb2 False by simp
    qed
  next
    case break2: False
    then have "\<not> s - ce1 \<le> t1" using Cons.prems by linarith
    moreover have "e \<le> e" by simp
    note Cons.IH[OF Cons.prems(1) this, of s s]
    ultimately show ?thesis unfolding p using break2 by simp
  qed
qed

lemma spec_sweep_head:
  "\<exists>ce' ys. spec_sweep t (cs, ce) xs = (cs, ce') # ys \<and> ce \<le> ce'"
proof (induction xs arbitrary: ce)
  case Nil
  show ?case by simp
next
  case (Cons p xs)
  obtain s e where p: "p = (s, e)" by (cases p)
  show ?case
  proof (cases "s - ce \<le> t")
    case True
    from Cons.IH[of "max ce e"] obtain ce' ys
      where "spec_sweep t (cs, max ce e) xs = (cs, ce') # ys" "max ce e \<le> ce'" by blast
    then show ?thesis unfolding p using True by simp
  next
    case False
    then show ?thesis unfolding p by simp
  qed
qed

lemma spec_sweep_gaps: "gaps_exceed t (spec_sweep t x xs)"
proof (induction xs arbitrary: x)
  case Nil
  show ?case by (cases x) simp
next
  case (Cons p xs)
  obtain cs ce where x: "x = (cs, ce)" by (cases x)
  obtain s e where p: "p = (s, e)" by (cases p)
  show ?case
  proof (cases "s - ce \<le> t")
    case True
    then show ?thesis unfolding x p using Cons.IH by simp
  next
    case False
    from spec_sweep_head[of t s e xs] obtain ce' ys
      where h: "spec_sweep t (s, e) xs = (s, ce') # ys" by blast
    have "gaps_exceed t ((s, ce') # ys)" using Cons.IH[of "(s, e)"] h by simp
    then show ?thesis unfolding x p using False h by simp
  qed
qed

lemma spec_sweep_fixed: "gaps_exceed t (x # xs) \<Longrightarrow> spec_sweep t x xs = x # xs"
proof (induction xs arbitrary: x)
  case Nil
  show ?case by (cases x) simp
next
  case (Cons p xs)
  obtain cs ce where x: "x = (cs, ce)" by (cases x)
  obtain s e where p: "p = (s, e)" by (cases p)
  from Cons.prems have "s - ce > t" "gaps_exceed t (p # xs)" unfolding x p by simp_all
  then show ?case unfolding x p using Cons.IH[of p] p by simp
qed

lemma absorb_keeps_order:
  fixes r :: range
  assumes "(cs, ce) \<le> (s, e)" "(s, e) \<le> r"
  shows "(cs, max ce e) \<le> r"
  using assms by (cases r) (auto simp: max_def)

lemma spec_sweep_ge:
  "sorted (x # xs) \<Longrightarrow> y \<in> set (spec_sweep t x xs) \<Longrightarrow> x \<le> y"
proof (induction xs arbitrary: x)
  case Nil
  then show ?case by (cases x) simp
next
  case (Cons p xs)
  obtain cs ce where x: "x = (cs, ce)" by (cases x)
  obtain s e where p: "p = (s, e)" by (cases p)
  from Cons.prems(1) have le: "(cs, ce) \<le> (s, e)" and rest: "\<forall>r\<in>set xs. (s, e) \<le> r"
    and srt: "sorted xs" unfolding x p by auto
  show ?case
  proof (cases "s - ce \<le> t")
    case True
    have "sorted ((cs, max ce e) # xs)"
      using srt rest le absorb_keeps_order by auto
    from Cons.IH[OF this] Cons.prems(2) True have "(cs, max ce e) \<le> y" unfolding x p by simp
    moreover have "(cs, ce) \<le> (cs, max ce e)" by simp
    ultimately show ?thesis unfolding x by (rule order_trans[rotated])
  next
    case False
    have "sorted ((s, e) # xs)" using srt rest by simp
    from Cons.prems(2) False have "y = (cs, ce) \<or> y \<in> set (spec_sweep t (s, e) xs)"
      unfolding x p by simp
    then show ?thesis
    proof
      assume "y = (cs, ce)"
      then show ?thesis unfolding x by simp
    next
      assume "y \<in> set (spec_sweep t (s, e) xs)"
      from Cons.IH[OF \<open>sorted ((s, e) # xs)\<close> this] have "(s, e) \<le> y" .
      with le show ?thesis unfolding x by (rule order_trans)
    qed
  qed
qed

lemma spec_sweep_sorted: "sorted (x # xs) \<Longrightarrow> sorted (spec_sweep t x xs)"
proof (induction xs arbitrary: x)
  case Nil
  then show ?case by (cases x) simp
next
  case (Cons p xs)
  obtain cs ce where x: "x = (cs, ce)" by (cases x)
  obtain s e where p: "p = (s, e)" by (cases p)
  from Cons.prems(1) have le: "(cs, ce) \<le> (s, e)" and rest: "\<forall>r\<in>set xs. (s, e) \<le> r"
    and srt: "sorted xs" unfolding x p by auto
  show ?case
  proof (cases "s - ce \<le> t")
    case True
    have "sorted ((cs, max ce e) # xs)"
      using srt rest le absorb_keeps_order by auto
    from Cons.IH[OF this] True show ?thesis unfolding x p by simp
  next
    case False
    have s2: "sorted ((s, e) # xs)" using srt rest by simp
    have "\<forall>y\<in>set (spec_sweep t (s, e) xs). (cs, ce) \<le> y"
      using spec_sweep_ge[OF s2] le by (blast intro: order_trans)
    with Cons.IH[OF s2] False show ?thesis unfolding x p by simp
  qed
qed

lemma spec_merge_idem: "spec_merge t (spec_merge t ranges) = spec_merge t ranges"
proof (cases "sort ranges")
  case Nil
  then show ?thesis by (simp add: spec_merge_def)
next
  case (Cons x xs)
  have srt: "sorted (x # xs)" using Cons sorted_sort[of ranges] by simp
  have out: "spec_merge t ranges = spec_sweep t x xs" using Cons by (simp add: spec_merge_def)
  obtain y ys where y: "spec_sweep t x xs = y # ys"
    using spec_sweep_nonempty[of t x xs] by (cases "spec_sweep t x xs") auto
  have "sorted (y # ys)" using spec_sweep_sorted[OF srt, of t] y by simp
  then have "sort (y # ys) = y # ys" by (rule sort_key_id_if_sorted[of "\<lambda>x. x", simplified])
  moreover have "gaps_exceed t (y # ys)" using spec_sweep_gaps[of t x xs] y by simp
  then have "spec_sweep t y ys = y # ys" by (rule spec_sweep_fixed)
  ultimately show ?thesis unfolding out y by (simp add: spec_merge_def)
qed

lemma spec_sweep_valid:
  "\<forall>(s, e) \<in> set (x # xs). s \<le> e \<Longrightarrow> \<forall>(s, e) \<in> set (spec_sweep t x xs). s \<le> e"
proof (induction xs arbitrary: x)
  case Nil
  then show ?case by (cases x) simp
next
  case (Cons p xs)
  obtain cs ce where x: "x = (cs, ce)" by (cases x)
  obtain s e where p: "p = (s, e)" by (cases p)
  from Cons.prems have v: "cs \<le> ce" "s \<le> e" "\<forall>(s, e) \<in> set xs. s \<le> e"
    unfolding x p by auto
  show ?case
  proof (cases "s - ce \<le> t")
    case True
    have "\<forall>(s, e) \<in> set ((cs, max ce e) # xs). s \<le> e" using v by auto
    from Cons.IH[OF this] True show ?thesis unfolding x p by simp
  next
    case False
    have "\<forall>(s, e) \<in> set ((s, e) # xs). s \<le> e" using v by auto
    from Cons.IH[OF this] False v show ?thesis unfolding x p by simp
  qed
qed

lemma coverage_Nil: "coverage [] = {}"
  by (simp add: coverage_def)

lemma coverage_Cons: "coverage ((s, e) # xs) = {s..e} \<union> coverage xs"
  by (simp add: coverage_def)

lemma coverage_set_cong: "set xs = set ys \<Longrightarrow> coverage xs = coverage ys"
  by (simp add: coverage_def)

lemma lex_sorted_starts:
  fixes xs :: "range list"
  shows "sorted xs \<Longrightarrow> sorted (map fst xs)"
  by (induction xs) (auto simp: less_eq_prod_def)

lemma spec_sweep_covers_input:
  "sorted (map fst (x # xs)) \<Longrightarrow> coverage (x # xs) \<subseteq> coverage (spec_sweep t x xs)"
proof (induction xs arbitrary: x)
  case Nil
  show ?case by (cases x) simp
next
  case (Cons p xs)
  obtain cs ce where x: "x = (cs, ce)" by (cases x)
  obtain s e where p: "p = (s, e)" by (cases p)
  from Cons.prems have le: "cs \<le> s" and rest: "\<forall>r\<in>set xs. s \<le> fst r"
    and srt: "sorted (map fst xs)" unfolding x p by auto
  show ?case
  proof (cases "s - ce \<le> t")
    case True
    have "sorted (map fst ((cs, max ce e) # xs))" using srt rest le by auto
    from Cons.IH[OF this] have ih: "{cs..max ce e} \<union> coverage xs
        \<subseteq> coverage (spec_sweep t (cs, max ce e) xs)" by (simp add: coverage_Cons)
    have "{cs..ce} \<union> {s..e} \<subseteq> {cs..max ce e}" using le by auto
    then have "{cs..ce} \<union> {s..e} \<union> coverage xs \<subseteq> {cs..max ce e} \<union> coverage xs"
      by (rule Un_mono) (rule subset_refl)
    then have "{cs..ce} \<union> {s..e} \<union> coverage xs
        \<subseteq> coverage (spec_sweep t (cs, max ce e) xs)" using ih by (rule subset_trans)
    moreover have "coverage ((cs, ce) # (s, e) # xs) = {cs..ce} \<union> {s..e} \<union> coverage xs"
      by (simp add: coverage_Cons Un_assoc)
    moreover have "spec_sweep t (cs, ce) ((s, e) # xs) = spec_sweep t (cs, max ce e) xs"
      using True by simp
    ultimately show ?thesis unfolding x p by simp
  next
    case False
    have "sorted (map fst ((s, e) # xs))" using srt rest by simp
    from Cons.IH[OF this] False show ?thesis unfolding x p by (auto simp: coverage_Cons)
  qed
qed

lemma spec_sweep_adjacent_coverage:
  "sorted (map fst (x # xs)) \<Longrightarrow> coverage (spec_sweep 1 x xs) = coverage (x # xs)"
proof (induction xs arbitrary: x)
  case Nil
  show ?case by (cases x) simp
next
  case (Cons p xs)
  obtain cs ce where x: "x = (cs, ce)" by (cases x)
  obtain s e where p: "p = (s, e)" by (cases p)
  from Cons.prems have le: "cs \<le> s" and rest: "\<forall>r\<in>set xs. s \<le> fst r"
    and srt: "sorted (map fst xs)" unfolding x p by auto
  show ?case
  proof (cases "s - ce \<le> 1")
    case True
    have "sorted (map fst ((cs, max ce e) # xs))" using srt rest le by auto
    from Cons.IH[OF this] have "coverage (spec_sweep 1 (cs, max ce e) xs)
        = {cs..max ce e} \<union> coverage xs" by (simp add: coverage_Cons)
    moreover have "{cs..max ce e} = {cs..ce} \<union> {s..e}" using le True by auto
    moreover have "coverage ((cs, ce) # (s, e) # xs) = {cs..ce} \<union> {s..e} \<union> coverage xs"
      by (simp add: coverage_Cons Un_assoc)
    moreover have "spec_sweep 1 (cs, ce) ((s, e) # xs) = spec_sweep 1 (cs, max ce e) xs"
      using True by simp
    ultimately show ?thesis unfolding x p by simp
  next
    case False
    have "sorted (map fst ((s, e) # xs))" using srt rest by simp
    from Cons.IH[OF this] False show ?thesis unfolding x p by (auto simp: coverage_Cons)
  qed
qed

lemma spec_merge_covers_input: "coverage ranges \<subseteq> coverage (spec_merge t ranges)"
proof (cases "sort ranges")
  case Nil
  then have "ranges = []" by (metis length_sort length_0_conv)
  then show ?thesis by (simp add: spec_merge_def coverage_Nil)
next
  case (Cons x xs)
  have "sorted (map fst (x # xs))" using Cons sorted_sort[of ranges] lex_sorted_starts by metis
  from spec_sweep_covers_input[OF this, of t] have "coverage (sort ranges) \<subseteq> coverage (spec_merge t ranges)"
    using Cons by (simp add: spec_merge_def)
  moreover have "coverage (sort ranges) = coverage ranges" by (rule coverage_set_cong) simp
  ultimately show ?thesis by simp
qed

lemma spec_merge_adjacent_coverage: "coverage (spec_merge 1 ranges) = coverage ranges"
proof (cases "sort ranges")
  case Nil
  then have "ranges = []" by (metis length_sort length_0_conv)
  then show ?thesis by (simp add: spec_merge_def coverage_Nil)
next
  case (Cons x xs)
  have "sorted (map fst (x # xs))" using Cons sorted_sort[of ranges] lex_sorted_starts by metis
  from spec_sweep_adjacent_coverage[OF this] have "coverage (spec_merge 1 ranges) = coverage (sort ranges)"
    using Cons by (simp add: spec_merge_def)
  moreover have "coverage (sort ranges) = coverage ranges" by (rule coverage_set_cong) simp
  ultimately show ?thesis by simp
qed

lemma gap_addressesI:
  "(s1, e1) \<in> set ranges \<Longrightarrow> (s2, e2) \<in> set ranges \<Longrightarrow> e1 < x \<Longrightarrow> x < s2 \<Longrightarrow>
   s2 - e1 \<le> t \<Longrightarrow> x \<in> gap_addresses t ranges"
  unfolding gap_addresses_def
  by (rule CollectI, rule bexI[of _ "(s1, e1)"], simp, rule bexI[of _ "(s2, e2)"]) simp_all

lemma spec_sweep_upper:
  assumes rest: "set xs \<subseteq> set input"
    and ce: "\<exists>s1. (s1, ce) \<in> set input"
    and cur: "{cs..ce} \<subseteq> coverage input \<union> gap_addresses t input"
  shows "coverage (spec_sweep t (cs, ce) xs) \<subseteq> coverage input \<union> gap_addresses t input"
  using rest ce cur
proof (induction xs arbitrary: cs ce)
  case Nil
  then show ?case by (simp add: coverage_Cons coverage_Nil)
next
  case (Cons p xs)
  obtain s e where p: "p = (s, e)" by (cases p)
  from Cons.prems(1) have pin: "(s, e) \<in> set input" and sub: "set xs \<subseteq> set input"
    unfolding p by simp_all
  have own: "{s..e} \<subseteq> coverage input" using pin by (auto simp: coverage_def)
  show ?case
  proof (cases "s - ce \<le> t")
    case True
    have end_in: "\<exists>s1. (s1, max ce e) \<in> set input"
      using Cons.prems(2) pin by (auto simp: max_def)
    have "{cs..max ce e} \<subseteq> coverage input \<union> gap_addresses t input"
    proof
      fix x assume x: "x \<in> {cs..max ce e}"
      show "x \<in> coverage input \<union> gap_addresses t input"
      proof (cases "x \<le> ce")
        case True
        with x Cons.prems(3) show ?thesis by auto
      next
        case above: False
        show ?thesis
        proof (cases "s \<le> x")
          case True
          with x above own show ?thesis by (auto simp: max_def split: if_splits)
        next
          case False
          from Cons.prems(2) obtain s1 where "(s1, ce) \<in> set input" by blast
          moreover have "ce < x" "x < s" using above False by simp_all
          ultimately have "x \<in> gap_addresses t input"
            using pin \<open>s - ce \<le> t\<close> by (intro gap_addressesI[of s1 ce input s e x t])
          then show ?thesis by simp
        qed
      qed
    qed
    from Cons.IH[OF sub end_in this] True show ?thesis unfolding p by simp
  next
    case False
    have "\<exists>s1. (s1, e) \<in> set input" using pin by blast
    moreover have "{s..e} \<subseteq> coverage input \<union> gap_addresses t input" using own by blast
    ultimately have "coverage (spec_sweep t (s, e) xs) \<subseteq> coverage input \<union> gap_addresses t input"
      using Cons.IH[OF sub] by blast
    with Cons.prems(3) False show ?thesis unfolding p by (simp add: coverage_Cons)
  qed
qed

lemma spec_merge_upper:
  "coverage (spec_merge t ranges) \<subseteq> coverage ranges \<union> gap_addresses t ranges"
proof (cases "sort ranges")
  case Nil
  then show ?thesis by (simp add: spec_merge_def coverage_Nil)
next
  case (Cons x xs)
  obtain cs ce where x: "x = (cs, ce)" by (cases x)
  have st: "set (x # xs) = set ranges" using Cons set_sort[of "\<lambda>x. x" ranges] by simp
  then have xin: "(cs, ce) \<in> set ranges" and sub: "set xs \<subseteq> set ranges" unfolding x by auto
  have "\<exists>s1. (s1, ce) \<in> set ranges" using xin by blast
  moreover have "{cs..ce} \<subseteq> coverage ranges \<union> gap_addresses t ranges"
    using xin by (auto simp: coverage_def)
  ultimately have "coverage (spec_sweep t (cs, ce) xs) \<subseteq> coverage ranges \<union> gap_addresses t ranges"
    using spec_sweep_upper[OF sub] by blast
  then show ?thesis using Cons x by (simp add: spec_merge_def)
qed

lemma valid_ranges_iff: "valid_ranges ranges \<longleftrightarrow> (\<forall>(s, e) \<in> set ranges. s \<le> e)"
  by (simp add: valid_ranges_def list_all_iff)

lemma merge_threshold_pos: "0 \<le> merge_threshold tier_level"
  by (simp add: merge_threshold_def)

lemma spec_merge_mono_length:
  "t1 \<le> t2 \<Longrightarrow> length (spec_merge t2 ranges) \<le> length (spec_merge t1 ranges)"
proof (cases "sort ranges")
  case Nil
  then show ?thesis by (simp add: spec_merge_def)
next
  case (Cons x xs)
  assume le: "t1 \<le> t2"
  obtain cs ce where x: "x = (cs, ce)" by (cases x)
  have "length (spec_sweep t2 (cs, ce) xs) \<le> length (spec_sweep t1 (cs, ce) xs)"
    using le by (rule spec_sweep_mono_length) simp
  then show ?thesis using Cons x by (simp add: spec_merge_def)
qed

lemma gaps_pairwise:
  "gaps_exceed t xs \<Longrightarrow> 0 \<le> t \<Longrightarrow> \<forall>(s, e) \<in> set xs. s \<le> e \<Longrightarrow>
   sorted_wrt (\<lambda>a b. t < fst b - snd a) xs"
proof (induction t xs rule: gaps_exceed.induct)
  case (1 t)
  show ?case by simp
next
  case (2 t x)
  show ?case by simp
next
  case (3 t s1 e1 s2 e2 rest)
  from "3.prems" have g: "s2 - e1 > t" "gaps_exceed t ((s2, e2) # rest)"
    and v: "s2 \<le> e2" "\<forall>(s, e) \<in> set ((s2, e2) # rest). s \<le> e" by auto
  have ih: "sorted_wrt (\<lambda>a b. t < fst b - snd a) ((s2, e2) # rest)"
    using "3.IH"[OF g(2) "3.prems"(2) v(2)] .
  then have "\<forall>z\<in>set rest. t < fst z - e2" by simp
  then have "\<forall>z\<in>set rest. t < fst z - e1" using g(1) v(1) "3.prems"(2) by fastforce
  then show ?case using ih g(1) by simp
qed

lemma spec_merge_props:
  assumes ne: "ranges \<noteq> []" and valid: "\<forall>(s, e) \<in> set ranges. s \<le> e" and t0: "0 \<le> t"
  shows "sorted_wrt (\<lambda>a b. t < fst b - snd a) (spec_merge t ranges)"
    and "\<forall>(s, e) \<in> set (spec_merge t ranges). s \<le> e"
    and "spec_merge t ranges \<noteq> []"
    and "length (spec_merge t ranges) \<le> length ranges"
proof -
  from ne have "sort ranges \<noteq> []" by (metis length_sort length_0_conv)
  then obtain x xs where sr: "sort ranges = x # xs" by (cases "sort ranges") auto
  have out: "spec_merge t ranges = spec_sweep t x xs" using sr by (simp add: spec_merge_def)
  have "set (x # xs) = set ranges" using sr set_sort[of "\<lambda>x. x" ranges] by simp
  then have "\<forall>(s, e) \<in> set (x # xs). s \<le> e" using valid by simp
  then have v: "\<forall>(s, e) \<in> set (spec_sweep t x xs). s \<le> e" by (rule spec_sweep_valid)
  then show "\<forall>(s, e) \<in> set (spec_merge t ranges). s \<le> e" unfolding out .
  show "sorted_wrt (\<lambda>a b. t < fst b - snd a) (spec_merge t ranges)"
    unfolding out using spec_sweep_gaps t0 v by (rule gaps_pairwise)
  show "spec_merge t ranges \<noteq> []" unfolding out by (rule spec_sweep_nonempty)
  have "length (x # xs) = length ranges" using sr length_sort[of "\<lambda>x. x" ranges] by simp
  then show "length (spec_merge t ranges) \<le> length ranges"
    unfolding out using spec_sweep_length[of t x xs] by simp
qed

lemma tmr_separated:
  assumes valid: "\<forall>(s, e) \<in> set ranges. s \<le> e"
  shows "sorted_wrt (\<lambda>a b. snd a < fst b) (tiered_merge_ranges ranges tier_level)"
    and "\<forall>(s, e) \<in> set (tiered_merge_ranges ranges tier_level). s \<le> e"
proof -
  show "sorted_wrt (\<lambda>a b. snd a < fst b) (tiered_merge_ranges ranges tier_level)"
  proof (cases "ranges = []")
    case True
    then show ?thesis by (simp add: tiered_merge_ranges_def)
  next
    case False
    have "sorted_wrt (\<lambda>a b. merge_threshold tier_level < fst b - snd a)
            (tiered_merge_ranges ranges tier_level)"
      unfolding tmr_spec_merge using False valid merge_threshold_pos by (rule spec_merge_props(1))
    then show ?thesis
      by (rule sorted_wrt_mono_rel[rotated]) (use merge_threshold_pos[of tier_level] in auto)
  qed
  show "\<forall>(s, e) \<in> set (tiered_merge_ranges ranges tier_level). s \<le> e"
  proof (cases "ranges = []")
    case True
    then show ?thesis by (simp add: tiered_merge_ranges_def)
  next
    case False
    then show ?thesis unfolding tmr_spec_merge using valid merge_threshold_pos
      by (rule spec_merge_props(2))
  qed
qed

section \<open>Properties of the classifier and the assembler\<close>

lemma classify_rows_Nil: "classify_rows cm ip b [] = b"
  by (simp add: classify_rows_def)

lemma classify_rows_Cons:
  "classify_rows cm ip b (r # rows) = classify_rows cm ip (classify_row cm ip b r) rows"
  by (simp add: classify_rows_def)

lemma classify_rows_append:
  "classify_rows cm ip b (rows1 @ rows2) = classify_rows cm ip (classify_rows cm ip b rows1) rows2"
  by (simp add: classify_rows_def)

lemma classify_row_dom:
  "dom (tier1_data b) = TIER1_COUNTRIES \<Longrightarrow> dom (tier2_data b) = TIER2_COUNTRIES \<Longrightarrow>
   dom (tier1_data (classify_row cm ip b r)) = TIER1_COUNTRIES
   \<and> dom (tier2_data (classify_row cm ip b r)) = TIER2_COUNTRIES"
  by (auto simp: classify_row_def try_body_def split: pyval.splits sum.splits option.splits if_splits)

lemma classify_rows_dom:
  "dom (tier1_data b) = TIER1_COUNTRIES \<Longrightarrow> dom (tier2_data b) = TIER2_COUNTRIES \<Longrightarrow>
   dom (tier1_data (classify_rows cm ip b rows)) = TIER1_COUNTRIES
   \<and> dom (tier2_data (classify_rows cm ip b rows)) = TIER2_COUNTRIES"
proof (induction rows arbitrary: b)
  case Nil
  then show ?case by (simp add: classify_rows_Nil)
next
  case (Cons r rows)
  from classify_row_dom[OF Cons.prems, of cm ip r]
  have "dom (tier1_data (classify_row cm ip b r)) = TIER1_COUNTRIES"
    and "dom (tier2_data (classify_row cm ip b r)) = TIER2_COUNTRIES" by simp_all
  from Cons.IH[OF this] show ?case by (simp add: classify_rows_Cons)
qed

lemma init_buckets_dom:
  "dom (tier1_data init_buckets) = TIER1_COUNTRIES \<and> dom (tier2_data init_buckets) = TIER2_COUNTRIES"
  by (auto simp: init_buckets_def dom_def)

lemma reachable_dom:
  "dom (tier1_data (classify_rows cm ip init_buckets rows)) = TIER1_COUNTRIES
   \<and> dom (tier2_data (classify_rows cm ip init_buckets rows)) = TIER2_COUNTRIES"
  using init_buckets_dom classify_rows_dom by blast

lemma sorted_TIER1:
  "sorted_list_of_set TIER1_COUNTRIES = [''AU'', ''CN'', ''HK'', ''JP'', ''KR'', ''NZ'', ''SG'', ''US'']"
  by (simp add: TIER1_COUNTRIES_def)

lemma sorted_TIER2:
  "sorted_list_of_set TIER2_COUNTRIES = [''CA'', ''DE'', ''FR'', ''GB'', ''IN'', ''IT'', ''NL'', ''RU'', ''TW'']"
  by (simp add: TIER2_COUNTRIES_def)

lemma sample_classify:
  "classify_rows sample_country_map sample_ip_network init_buckets sample_rows
     = init_buckets\<lparr>tier1_data := (tier1_data init_buckets)
            (''CN'' \<mapsto> [(16777472, 16777727), (16779264, 16781311)]),
          tier3_data := [(16777216, 16777471), (16777728, 16777983)]\<rparr>"
  by (simp add: classify_rows_def classify_row_def lookup_country_def py_or_def row_get_def
      truthy_def try_body_def parse_network_def init_buckets_def TIER1_COUNTRIES_def
      TIER2_COUNTRIES_def)

lemma sample_main_table:
  "main_table sample_country_map sample_ip_network sample_rows = Inr sample_table"
  unfolding main_table_def sample_classify
  by (simp add: build_table_def sorted_TIER1 sorted_TIER2 init_buckets_def merge_others_def
      tag_entries_def tiered_merge_ranges_def merge_threshold_def OTHER_COUNTRY_CODE_def
      TIER1_COUNTRIES_def TIER2_COUNTRIES_def)

lemma tag_entries_Nil: "tag_entries c [] = []"
  by (simp add: tag_entries_def)

lemma tag_entries_set: "set (tag_entries c G) = (\<lambda>(s, e). (s, e, c)) ` set G"
  by (simp add: tag_entries_def)

lemma merge_countries_Inr:
  "set countries \<subseteq> dom data \<Longrightarrow>
   merge_countries lvl data countries acc
     = Inr (acc @ concat (map (\<lambda>c. tag_entries c (tiered_merge_ranges (the (data c)) lvl)) countries))"
proof (induction countries arbitrary: acc)
  case Nil
  show ?case by simp
next
  case (Cons c countries)
  from Cons.prems obtain l where l: "data c = Some l" by auto
  from Cons.prems have sub: "set countries \<subseteq> dom data" by simp
  show ?case
  proof (cases "l = []")
    case True
    then show ?thesis using l Cons.IH[OF sub]
      by (simp add: tiered_merge_ranges_def tag_entries_Nil)
  next
    case False
    then show ?thesis using l Cons.IH[OF sub] by simp
  qed
qed

lemma merge_others_eq:
  "merge_others tier3 acc = acc @ tag_entries OTHER_COUNTRY_CODE (tiered_merge_ranges tier3 3)"
  by (simp add: merge_others_def tiered_merge_ranges_def tag_entries_Nil)

lemma finite_tiers: "finite TIER1_COUNTRIES" "finite TIER2_COUNTRIES"
  by (simp_all add: TIER1_COUNTRIES_def TIER2_COUNTRIES_def)

lemma build_table_Inr:
  assumes "dom (tier1_data b) = TIER1_COUNTRIES" and "dom (tier2_data b) = TIER2_COUNTRIES"
  shows "build_table b = Inr (sort_key fst
     (concat (map (\<lambda>c. tag_entries c (tiered_merge_ranges (the (tier1_data b c)) 1))
                  (sorted_list_of_set TIER1_COUNTRIES))
      @ concat (map (\<lambda>c. tag_entries c (tiered_merge_ranges (the (tier2_data b c)) 2))
                  (sorted_list_of_set TIER2_COUNTRIES))
      @ tag_entries OTHER_COUNTRY_CODE (tiered_merge_ranges (tier3_data b) 3)))"
proof -
  have s1: "set (sorted_list_of_set TIER1_COUNTRIES) \<subseteq> dom (tier1_data b)"
    using assms(1) finite_tiers(1) by simp
  have s2: "set (sorted_list_of_set TIER2_COUNTRIES) \<subseteq> dom (tier2_data b)"
    using assms(2) finite_tiers(2) by simp
  show ?thesis
    unfolding build_table_def merge_countries_Inr[OF s1] merge_countries_Inr[OF s2] merge_others_eq
    by simp
qed

lemma main_table_total: "\<exists>table. main_table cm ip rows = Inr table"
  unfolding main_table_def using build_table_Inr reachable_dom by blast

lemma build_table_sorted:
  "build_table b = Inr table \<Longrightarrow> sorted (map fst table)"
  by (auto simp: build_table_def split: sum.splits)

lemma parse_network_valid:
  "\<forall>text s e. ip text = Some (s, e) \<longrightarrow> s \<le> e \<Longrightarrow> parse_network ip r = Inr (s, e) \<Longrightarrow> s \<le> e"
  by (auto simp: parse_network_def split: option.splits pyval.splits)

lemma classify_row_valid:
  assumes ipv: "\<forall>text s e. ip text = Some (s, e) \<longrightarrow> s \<le> e"
    and v1: "\<forall>c l. tier1_data b c = Some l \<longrightarrow> valid_ranges l"
    and v2: "\<forall>c l. tier2_data b c = Some l \<longrightarrow> valid_ranges l"
    and v3: "valid_ranges (tier3_data b)"
  shows "(\<forall>c l. tier1_data (classify_row cm ip b r) c = Some l \<longrightarrow> valid_ranges l)
       \<and> (\<forall>c l. tier2_data (classify_row cm ip b r) c = Some l \<longrightarrow> valid_ranges l)
       \<and> valid_ranges (tier3_data (classify_row cm ip b r))"
proof (cases "parse_network ip r")
  case (Inl err)
  then show ?thesis using v1 v2 v3
    by (simp add: classify_row_def try_body_def split: pyval.splits)
next
  case (Inr se)
  obtain s e where se: "se = (s, e)" by (cases se)
  have "s \<le> e" using parse_network_valid[OF ipv] Inr se by simp
  then have app: "valid_ranges l \<Longrightarrow> valid_ranges (l @ [se])" for l
    unfolding se by (simp add: valid_ranges_def)
  show ?thesis using v1 v2 v3 app Inr
    by (auto simp: classify_row_def try_body_def split: pyval.splits option.splits)
qed

lemma classify_rows_valid:
  assumes ipv: "\<forall>text s e. ip text = Some (s, e) \<longrightarrow> s \<le> e"
  shows "(\<forall>c l. tier1_data b c = Some l \<longrightarrow> valid_ranges l) \<Longrightarrow>
         (\<forall>c l. tier2_data b c = Some l \<longrightarrow> valid_ranges l) \<Longrightarrow>
         valid_ranges (tier3_data b) \<Longrightarrow>
         (\<forall>c l. tier1_data (classify_rows cm ip b rows) c = Some l \<longrightarrow> valid_ranges l)
       \<and> (\<forall>c l. tier2_data (classify_rows cm ip b rows) c = Some l \<longrightarrow> valid_ranges l)
       \<and> valid_ranges (tier3_data (classify_rows cm ip b rows))"
proof (induction rows arbitrary: b)
  case Nil
  then show ?case by (simp add: classify_rows_Nil)
next
  case (Cons r rows)
  from classify_row_valid[OF ipv Cons.prems, of cm r]
  have "\<forall>c l. tier1_data (classify_row cm ip b r) c = Some l \<longrightarrow> valid_ranges l"
    and "\<forall>c l. tier2_data (classify_row cm ip b r) c = Some l \<longrightarrow> valid_ranges l"
    and "valid_ranges (tier3_data (classify_row cm ip b r))" by simp_all
  from Cons.IH[OF this] show ?case by (simp add: classify_rows_Cons)
qed

lemma reachable_valid:
  assumes ipv: "\<forall>text s e. ip text = Some (s, e) \<longrightarrow> s \<le> e"
  shows "(\<forall>c l. tier1_data (classify_rows cm ip init_buckets rows) c = Some l \<longrightarrow> valid_ranges l)
       \<and> (\<forall>c l. tier2_data (classify_rows cm ip init_buckets rows) c = Some l \<longrightarrow> valid_ranges l)
       \<and> valid_ranges (tier3_data (classify_rows cm ip init_buckets rows))"
proof (rule classify_rows_valid[OF ipv])
  show "\<forall>c l. tier1_data init_buckets c = Some l \<longrightarrow> valid_ranges l"
    by (simp add: init_buckets_def valid_ranges_def)
  show "\<forall>c l. tier2_data init_buckets c = Some l \<longrightarrow> valid_ranges l"
    by (simp add: init_buckets_def valid_ranges_def)
  show "valid_ranges (tier3_data init_buckets)"
    by (simp add: init_buckets_def valid_ranges_def)
qed

lemma separated_disjoint:
  fixes G :: "range list"
  assumes sep: "sorted_wrt (\<lambda>a b. snd a < fst b) G"
    and x: "x \<in> set G" and y: "y \<in> set G" and ne: "x \<noteq> y"
  shows "{fst x..snd x} \<inter> {fst y..snd y} = {}"
proof -
  from x y obtain i j where ij: "i < length G" "j < length G" "G ! i = x" "G ! j = y"
    by (auto simp: in_set_conv_nth)
  with ne have "i \<noteq> j" by auto
  then consider "i < j" | "j < i" by linarith
  then show ?thesis
  proof cases
    case 1
    with sep ij have "snd x < fst y" by (auto simp: sorted_wrt_iff_nth_less)
    then show ?thesis by auto
  next
    case 2
    with sep ij have "snd y < fst x" by (auto simp: sorted_wrt_iff_nth_less)
    then show ?thesis by auto
  qed
qed

lemma separated_distinct:
  fixes G :: "range list"
  assumes sep: "sorted_wrt (\<lambda>a b. snd a < fst b) G" and valid: "\<forall>(s, e) \<in> set G. s \<le> e"
  shows "distinct G"
proof -
  have "sorted_wrt (\<lambda>a b. a \<noteq> b) G"
  proof (rule sorted_wrt_mono_rel[OF _ sep])
    fix a b assume "a \<in> set G" "b \<in> set G" "snd a < fst b"
    moreover from \<open>b \<in> set G\<close> valid have "fst b \<le> snd b" by (cases b) auto
    ultimately show "a \<noteq> b" by auto
  qed
  then have less: "\<forall>i j. i < j \<longrightarrow> j < length G \<longrightarrow> G ! i \<noteq> G ! j"
    by (simp add: sorted_wrt_iff_nth_less)
  show ?thesis unfolding distinct_conv_nth
  proof (intro allI impI)
    fix i j assume "i < length G" "j < length G" "i \<noteq> j"
    then consider "i < j" | "j < i" by linarith
    then show "G ! i \<noteq> G ! j"
    proof cases
      case 1
      with less \<open>j < length G\<close> show ?thesis by blast
    next
      case 2
      with less \<open>i < length G\<close> have "G ! j \<noteq> G ! i" by blast
      then show ?thesis by simp
    qed
  qed
qed

lemma tag_entries_distinct: "distinct G \<Longrightarrow> distinct (tag_entries c G)"
  by (auto simp: tag_entries_def distinct_map inj_on_def)

lemma distinct_concat_tagged:
  "distinct L \<Longrightarrow> (\<forall>c\<in>set L. distinct (f c)) \<Longrightarrow>
   (\<forall>c\<in>set L. \<forall>x\<in>set (f c). snd (snd x) = c) \<Longrightarrow> distinct (concat (map f L))"
proof (induction L)
  case Nil
  show ?case by simp
next
  case (Cons c L)
  have "set (f c) \<inter> set (concat (map f L)) = {}"
  proof (rule ccontr)
    assume "set (f c) \<inter> set (concat (map f L)) \<noteq> {}"
    then obtain x where x: "x \<in> set (f c)" "x \<in> set (concat (map f L))" by blast
    then obtain c' where c': "c' \<in> set L" "x \<in> set (f c')" by auto
    with Cons.prems(3) have "snd (snd x) = c'" by simp
    moreover from x(1) Cons.prems(3) have "snd (snd x) = c" by simp
    ultimately show False using c'(1) Cons.prems(1) by simp
  qed
  then show ?case using Cons by simp
qed

lemma tiers_disjoint:
  "TIER1_COUNTRIES \<inter> TIER2_COUNTRIES = {}"
  "OTHER_COUNTRY_CODE \<notin> TIER1_COUNTRIES" "OTHER_COUNTRY_CODE \<notin> TIER2_COUNTRIES"
  by (simp_all add: TIER1_COUNTRIES_def TIER2_COUNTRIES_def OTHER_COUNTRY_CODE_def)

lemma build_table_same_code_disjoint:
  assumes d1: "dom (tier1_data b) = TIER1_COUNTRIES" and d2: "dom (tier2_data b) = TIER2_COUNTRIES"
    and v1: "\<forall>c l. tier1_data b c = Some l \<longrightarrow> valid_ranges l"
    and v2: "\<forall>c l. tier2_data b c = Some l \<longrightarrow> valid_ranges l"
    and v3: "valid_ranges (tier3_data b)"
    and tab: "build_table b = Inr table"
    and i: "i < length table" and j: "j < length table" and ij: "i \<noteq> j"
    and code: "entry_code (table ! i) = entry_code (table ! j)"
  shows "entry_addresses (table ! i) \<inter> entry_addresses (table ! j) = {}"
proof -
  define G1 where "G1 c = tiered_merge_ranges (the (tier1_data b c)) 1" for c
  define G2 where "G2 c = tiered_merge_ranges (the (tier2_data b c)) 2" for c
  define G3 where "G3 = tiered_merge_ranges (tier3_data b) 3"
  define L1 where "L1 = sorted_list_of_set TIER1_COUNTRIES"
  define L2 where "L2 = sorted_list_of_set TIER2_COUNTRIES"
  define E1 where "E1 = concat (map (\<lambda>c. tag_entries c (G1 c)) L1)"
  define E2 where "E2 = concat (map (\<lambda>c. tag_entries c (G2 c)) L2)"
  define E3 where "E3 = tag_entries OTHER_COUNTRY_CODE G3"
  define grp where "grp c = (if c \<in> TIER1_COUNTRIES then G1 c
                             else if c \<in> TIER2_COUNTRIES then G2 c else G3)" for c
  have L1: "set L1 = TIER1_COUNTRIES" "distinct L1"
    unfolding L1_def using finite_tiers(1) by simp_all
  have L2: "set L2 = TIER2_COUNTRIES" "distinct L2"
    unfolding L2_def using finite_tiers(2) by simp_all
  have table: "table = sort_key fst (E1 @ E2 @ E3)"
    using build_table_Inr[OF d1 d2] tab
    unfolding E1_def E2_def E3_def G1_def G2_def G3_def L1_def L2_def by simp
  have val1: "\<forall>(s, e) \<in> set (the (tier1_data b c)). s \<le> e" if "c \<in> TIER1_COUNTRIES" for c
  proof -
    from that d1 obtain l where "tier1_data b c = Some l" by blast
    with v1 show ?thesis by (auto simp: valid_ranges_iff)
  qed
  have val2: "\<forall>(s, e) \<in> set (the (tier2_data b c)). s \<le> e" if "c \<in> TIER2_COUNTRIES" for c
  proof -
    from that d2 obtain l where "tier2_data b c = Some l" by blast
    with v2 show ?thesis by (auto simp: valid_ranges_iff)
  qed
  have val3: "\<forall>(s, e) \<in> set (tier3_data b). s \<le> e"
    using v3 by (simp add: valid_ranges_iff)
  have sepG: "sorted_wrt (\<lambda>a b. snd a < fst b) (grp c)"
    and validG: "\<forall>(s, e) \<in> set (grp c). s \<le> e" for c
    unfolding grp_def G1_def G2_def G3_def
    using tmr_separated[OF val1] tmr_separated[OF val2] tmr_separated[OF val3] by auto
  have distG: "distinct (grp c)" for c
    using sepG validG by (rule separated_distinct)
  have g1: "grp c = G1 c" if "c \<in> TIER1_COUNTRIES" for c using that by (simp add: grp_def)
  have g2: "grp c = G2 c" if "c \<in> TIER2_COUNTRIES" for c
    using that tiers_disjoint(1) by (auto simp: grp_def)
  have g3: "grp OTHER_COUNTRY_CODE = G3" using tiers_disjoint(2,3) by (simp add: grp_def)
  have inE1: "snd (snd x) \<in> TIER1_COUNTRIES \<and> (fst x, fst (snd x)) \<in> set (grp (snd (snd x)))"
    if "x \<in> set E1" for x
    using that g1 L1(1) unfolding E1_def by (auto simp: tag_entries_set)
  have inE2: "snd (snd x) \<in> TIER2_COUNTRIES \<and> (fst x, fst (snd x)) \<in> set (grp (snd (snd x)))"
    if "x \<in> set E2" for x
    using that g2 L2(1) unfolding E2_def by (auto simp: tag_entries_set)
  have inE3: "snd (snd x) = OTHER_COUNTRY_CODE \<and> (fst x, fst (snd x)) \<in> set (grp (snd (snd x)))"
    if "x \<in> set E3" for x
    using that g3 unfolding E3_def by (auto simp: tag_entries_set)
  have member: "(fst x, fst (snd x)) \<in> set (grp (snd (snd x)))" if "x \<in> set (E1 @ E2 @ E3)" for x
    using that inE1 inE2 inE3 by auto
  have dE1: "distinct E1" unfolding E1_def
  proof (rule distinct_concat_tagged[OF L1(2)])
    show "\<forall>c\<in>set L1. distinct (tag_entries c (G1 c))"
      using distG g1 L1(1) by (metis tag_entries_distinct)
    show "\<forall>c\<in>set L1. \<forall>x\<in>set (tag_entries c (G1 c)). snd (snd x) = c"
      by (auto simp: tag_entries_set)
  qed
  have dE2: "distinct E2" unfolding E2_def
  proof (rule distinct_concat_tagged[OF L2(2)])
    show "\<forall>c\<in>set L2. distinct (tag_entries c (G2 c))"
      using distG g2 L2(1) by (metis tag_entries_distinct)
    show "\<forall>c\<in>set L2. \<forall>x\<in>set (tag_entries c (G2 c)). snd (snd x) = c"
      by (auto simp: tag_entries_set)
  qed
  have dE3: "distinct E3" unfolding E3_def using distG[of OTHER_COUNTRY_CODE] g3
    by (simp add: tag_entries_distinct)
  have "set E1 \<inter> set E2 = {}" using inE1 inE2 tiers_disjoint(1) by blast
  moreover have "set E1 \<inter> set E3 = {}" using inE1 inE3 tiers_disjoint(2) by fastforce
  moreover have "set E2 \<inter> set E3 = {}" using inE2 inE3 tiers_disjoint(3) by fastforce
  ultimately have "distinct (E1 @ E2 @ E3)" using dE1 dE2 dE3 by auto
  then have dT: "distinct table" unfolding table by simp
  have setT: "set table = set (E1 @ E2 @ E3)" unfolding table by simp
  define x where "x = table ! i"
  define y where "y = table ! j"
  have xy: "x \<noteq> y" unfolding x_def y_def using dT i j ij by (simp add: nth_eq_iff_index_eq)
  have xin: "x \<in> set (E1 @ E2 @ E3)" and yin: "y \<in> set (E1 @ E2 @ E3)"
    unfolding x_def y_def using i j setT nth_mem by blast+
  have c: "snd (snd x) = snd (snd y)" using code unfolding x_def y_def entry_code_def .
  have mx: "(fst x, fst (snd x)) \<in> set (grp (snd (snd x)))" using member[OF xin] .
  have my: "(fst y, fst (snd y)) \<in> set (grp (snd (snd x)))" using member[OF yin] c by simp
  have ne: "(fst x, fst (snd x)) \<noteq> (fst y, fst (snd y))"
    using xy c by (cases x, cases y) auto
  from separated_disjoint[OF sepG mx my ne]
  have "{fst x..fst (snd x)} \<inter> {fst y..fst (snd y)} = {}" by simp
  then show ?thesis
    unfolding x_def y_def entry_addresses_def entry_start_def entry_end_def .
qed

lemma sample_ip_network_valid:
  "\<forall>text s e. sample_ip_network text = Some (s, e) \<longrightarrow> s \<le> e"
  by (simp split: if_splits)

lemma classify_reader_delivered:
  "classify_reader cm ip b (map Inr rows) = Inr (classify_rows cm ip b rows)"
  by (induction rows arbitrary: b) (simp_all add: classify_rows_Nil classify_rows_Cons)

lemma main_run_delivered: "main_run cm ip (map Inr rows) = main_table cm ip rows"
  by (simp add: main_run_def main_table_def classify_reader_delivered)

lemma classify_reader_skip:
  assumes skip: "\<And>b'. classify_row cm ip b' r = b'"
  shows "classify_reader cm ip b (before @ Inr r # after) = classify_reader cm ip b (before @ after)"
proof (induction before arbitrary: b)
  case Nil
  show ?case by (simp add: skip)
next
  case (Cons item before)
  show ?case by (cases item) (simp_all add: Cons.IH)
qed

lemma classify_reader_error:
  "classify_reader cm ip b (map Inr rows @ Inl err # rest) = Inl err"
  by (induction rows arbitrary: b) simp_all

lemma sample_classify_without_cn_a:
  "classify_rows sample_country_map sample_ip_network init_buckets ([row_br_a] @ [row_br_b, row_cn_b])
     = init_buckets\<lparr>tier1_data := (tier1_data init_buckets)(''CN'' \<mapsto> [(16779264, 16781311)]),
          tier3_data := [(16777216, 16777471), (16777728, 16777983)]\<rparr>"
  by (simp add: classify_rows_def classify_row_def lookup_country_def py_or_def row_get_def
      truthy_def try_body_def parse_network_def init_buckets_def TIER1_COUNTRIES_def
      TIER2_COUNTRIES_def)

lemma classify_row_appends:
  "\<exists>a1 a2 a3. \<forall>b. dom (tier1_data b) = TIER1_COUNTRIES \<and> dom (tier2_data b) = TIER2_COUNTRIES \<longrightarrow>
     (\<forall>c. tier1_data (classify_row cm ip b r) c = map_option (\<lambda>l. l @ a1 c) (tier1_data b c))
   \<and> (\<forall>c. tier2_data (classify_row cm ip b r) c = map_option (\<lambda>l. l @ a2 c) (tier2_data b c))
   \<and> tier3_data (classify_row cm ip b r) = tier3_data b @ a3"
proof -
  let ?P = "\<lambda>a1 a2 a3. \<forall>b. dom (tier1_data b) = TIER1_COUNTRIES \<and> dom (tier2_data b) = TIER2_COUNTRIES \<longrightarrow>
     (\<forall>c. tier1_data (classify_row cm ip b r) c = map_option (\<lambda>l. l @ a1 c) (tier1_data b c))
   \<and> (\<forall>c. tier2_data (classify_row cm ip b r) c = map_option (\<lambda>l. l @ a2 c) (tier2_data b c))
   \<and> tier3_data (classify_row cm ip b r) = tier3_data b @ a3"
  have none: "?P (\<lambda>c. []) (\<lambda>c. []) []" if "\<And>b. classify_row cm ip b r = b"
    using that by (simp add: option.map_ident)
  show ?thesis
  proof (cases "lookup_country cm r")
    case PyNone
    then have "\<And>b. classify_row cm ip b r = b" by (simp add: classify_row_def)
    from none[OF this] show ?thesis by - (intro exI, assumption)
  next
    case (PyStr country)
    show ?thesis
    proof (cases "country = []")
      case True
      then have "\<And>b. classify_row cm ip b r = b" using PyStr by (simp add: classify_row_def)
      from none[OF this] show ?thesis by - (intro exI, assumption)
    next
      case ne: False
      show ?thesis
      proof (cases "parse_network ip r")
        case (Inl err)
        then have "\<And>b. classify_row cm ip b r = b"
          using PyStr by (simp add: classify_row_def try_body_def)
        from none[OF this] show ?thesis by - (intro exI, assumption)
      next
        case (Inr se)
        consider (t1) "country \<in> TIER1_COUNTRIES"
          | (t2) "country \<notin> TIER1_COUNTRIES" "country \<in> TIER2_COUNTRIES"
          | (t3) "country \<notin> TIER1_COUNTRIES" "country \<notin> TIER2_COUNTRIES" by blast
        then show ?thesis
        proof cases
          case t1
          have "?P (\<lambda>c. if c = country then [se] else []) (\<lambda>c. []) []"
          proof (intro allI impI)
            fix b :: buckets assume d: "dom (tier1_data b) = TIER1_COUNTRIES \<and> dom (tier2_data b) = TIER2_COUNTRIES"
            with t1 obtain l where l: "tier1_data b country = Some l" by blast
            then have "classify_row cm ip b r = b\<lparr>tier1_data := (tier1_data b)(country \<mapsto> l @ [se])\<rparr>"
              using PyStr ne Inr t1 by (simp add: classify_row_def try_body_def)
            then show "(\<forall>c. tier1_data (classify_row cm ip b r) c
                          = map_option (\<lambda>l. l @ (if c = country then [se] else [])) (tier1_data b c))
              \<and> (\<forall>c. tier2_data (classify_row cm ip b r) c = map_option (\<lambda>l. l @ []) (tier2_data b c))
              \<and> tier3_data (classify_row cm ip b r) = tier3_data b @ []"
              using l by (simp add: option.map_ident)
          qed
          then show ?thesis by - (intro exI, assumption)
        next
          case t2
          have "?P (\<lambda>c. []) (\<lambda>c. if c = country then [se] else []) []"
          proof (intro allI impI)
            fix b :: buckets assume d: "dom (tier1_data b) = TIER1_COUNTRIES \<and> dom (tier2_data b) = TIER2_COUNTRIES"
            with t2 obtain l where l: "tier2_data b country = Some l" by blast
            then have "classify_row cm ip b r = b\<lparr>tier2_data := (tier2_data b)(country \<mapsto> l @ [se])\<rparr>"
              using PyStr ne Inr t2 by (simp add: classify_row_def try_body_def)
            then show "(\<forall>c. tier1_data (classify_row cm ip b r) c = map_option (\<lambda>l. l @ []) (tier1_data b c))
              \<and> (\<forall>c. tier2_data (classify_row cm ip b r) c
                          = map_option (\<lambda>l. l @ (if c = country then [se] else [])) (tier2_data b c))
              \<and> tier3_data (classify_row cm ip b r) = tier3_data b @ []"
              using l by (simp add: option.map_ident)
          qed
          then show ?thesis by - (intro exI, assumption)
        next
          case t3
          have "?P (\<lambda>c. []) (\<lambda>c. []) [se]"
            using PyStr ne Inr t3 by (simp add: classify_row_def try_body_def option.map_ident)
          then show ?thesis by - (intro exI, assumption)
        qed
      qed
    qed
  qed
qed

lemma classify_rows_appends:
  "\<exists>a1 a2 a3. \<forall>b. dom (tier1_data b) = TIER1_COUNTRIES \<and> dom (tier2_data b) = TIER2_COUNTRIES \<longrightarrow>
     (\<forall>c. tier1_data (classify_rows cm ip b rows) c = map_option (\<lambda>l. l @ a1 c) (tier1_data b c))
   \<and> (\<forall>c. tier2_data (classify_rows cm ip b rows) c = map_option (\<lambda>l. l @ a2 c) (tier2_data b c))
   \<and> tier3_data (classify_rows cm ip b rows) = tier3_data b @ a3"
proof (induction rows)
  case Nil
  have "\<forall>b. dom (tier1_data b) = TIER1_COUNTRIES \<and> dom (tier2_data b) = TIER2_COUNTRIES \<longrightarrow>
     (\<forall>c. tier1_data (classify_rows cm ip b []) c = map_option (\<lambda>l. l @ []) (tier1_data b c))
   \<and> (\<forall>c. tier2_data (classify_rows cm ip b []) c = map_option (\<lambda>l. l @ []) (tier2_data b c))
   \<and> tier3_data (classify_rows cm ip b []) = tier3_data b @ []"
    by (simp add: classify_rows_Nil option.map_ident)
  then show ?case by - (intro exI, assumption)
next
  case (Cons r rows)
  from classify_row_appends[of cm ip r] obtain a1 a2 a3 where
    step: "\<And>b. dom (tier1_data b) = TIER1_COUNTRIES \<Longrightarrow> dom (tier2_data b) = TIER2_COUNTRIES \<Longrightarrow>
       (\<forall>c. tier1_data (classify_row cm ip b r) c = map_option (\<lambda>l. l @ a1 c) (tier1_data b c))
     \<and> (\<forall>c. tier2_data (classify_row cm ip b r) c = map_option (\<lambda>l. l @ a2 c) (tier2_data b c))
     \<and> tier3_data (classify_row cm ip b r) = tier3_data b @ a3" by blast
  from Cons.IH obtain A1 A2 A3 where
    ih: "\<And>b. dom (tier1_data b) = TIER1_COUNTRIES \<Longrightarrow> dom (tier2_data b) = TIER2_COUNTRIES \<Longrightarrow>
       (\<forall>c. tier1_data (classify_rows cm ip b rows) c = map_option (\<lambda>l. l @ A1 c) (tier1_data b c))
     \<and> (\<forall>c. tier2_data (classify_rows cm ip b rows) c = map_option (\<lambda>l. l @ A2 c) (tier2_data b c))
     \<and> tier3_data (classify_rows cm ip b rows) = tier3_data b @ A3" by blast
  have "\<forall>b. dom (tier1_data b) = TIER1_COUNTRIES \<and> dom (tier2_data b) = TIER2_COUNTRIES \<longrightarrow>
     (\<forall>c. tier1_data (classify_rows cm ip b (r # rows)) c
             = map_option (\<lambda>l. l @ (a1 c @ A1 c)) (tier1_data b c))
   \<and> (\<forall>c. tier2_data (classify_rows cm ip b (r # rows)) c
             = map_option (\<lambda>l. l @ (a2 c @ A2 c)) (tier2_data b c))
   \<and> tier3_data (classify_rows cm ip b (r # rows)) = tier3_data b @ (a3 @ A3)"
  proof (intro allI impI)
    fix b :: buckets assume d: "dom (tier1_data b) = TIER1_COUNTRIES \<and> dom (tier2_data b) = TIER2_COUNTRIES"
    then have d1: "dom (tier1_data b) = TIER1_COUNTRIES" and d2: "dom (tier2_data b) = TIER2_COUNTRIES"
      by simp_all
    from classify_row_dom[OF d1 d2, of cm ip r]
    have e1: "dom (tier1_data (classify_row cm ip b r)) = TIER1_COUNTRIES"
      and e2: "dom (tier2_data (classify_row cm ip b r)) = TIER2_COUNTRIES" by simp_all
    show "(\<forall>c. tier1_data (classify_rows cm ip b (r # rows)) c
             = map_option (\<lambda>l. l @ (a1 c @ A1 c)) (tier1_data b c))
       \<and> (\<forall>c. tier2_data (classify_rows cm ip b (r # rows)) c
             = map_option (\<lambda>l. l @ (a2 c @ A2 c)) (tier2_data b c))
       \<and> tier3_data (classify_rows cm ip b (r # rows)) = tier3_data b @ (a3 @ A3)"
      using step[OF d1 d2] ih[OF e1 e2]
      by (simp add: classify_rows_Cons option.map_comp comp_def)
  qed
  then show ?case by - (intro exI, assumption)
qed

lemma spec_sweep_contains:
  "sorted (map fst (x # xs)) \<Longrightarrow> (s, e) \<in> set (x # xs) \<Longrightarrow>
   \<exists>q. q \<in> set (spec_sweep t x xs) \<and> fst q \<le> s \<and> e \<le> snd q"
proof (induction xs arbitrary: x s e)
  case Nil
  then show ?case by (cases x) auto
next
  case (Cons p xs)
  obtain cs ce where x: "x = (cs, ce)" by (cases x)
  obtain s2 e2 where p: "p = (s2, e2)" by (cases p)
  from Cons.prems(1) have le: "cs \<le> s2" and rest: "\<forall>r\<in>set xs. s2 \<le> fst r"
    and srt: "sorted (map fst xs)" unfolding x p by auto
  show ?case
  proof (cases "s2 - ce \<le> t")
    case True
    have srt': "sorted (map fst ((cs, max ce e2) # xs))" using srt rest le by auto
    consider "(s, e) = (cs, ce)" | "(s, e) = (s2, e2)" | "(s, e) \<in> set xs"
      using Cons.prems(2) unfolding x p by auto
    then have "\<exists>q. q \<in> set (spec_sweep t (cs, max ce e2) xs) \<and> fst q \<le> s \<and> e \<le> snd q"
    proof cases
      case 1
      from Cons.IH[OF srt', of cs "max ce e2"] obtain q
        where "q \<in> set (spec_sweep t (cs, max ce e2) xs)" "fst q \<le> cs" "max ce e2 \<le> snd q" by auto
      with 1 show ?thesis by (intro exI[of _ q]) auto
    next
      case 2
      from Cons.IH[OF srt', of cs "max ce e2"] obtain q
        where "q \<in> set (spec_sweep t (cs, max ce e2) xs)" "fst q \<le> cs" "max ce e2 \<le> snd q" by auto
      with 2 le show ?thesis by (intro exI[of _ q]) auto
    next
      case 3
      then have "(s, e) \<in> set ((cs, max ce e2) # xs)" by simp
      from Cons.IH[OF srt' this] show ?thesis .
    qed
    then show ?thesis unfolding x p using True by simp
  next
    case False
    have srt': "sorted (map fst ((s2, e2) # xs))" using srt rest by simp
    show ?thesis
    proof (cases "(s, e) = (cs, ce)")
      case True
      then show ?thesis unfolding x p using False by (intro exI[of _ "(cs, ce)"]) auto
    next
      case ne: False
      then have "(s, e) \<in> set ((s2, e2) # xs)" using Cons.prems(2) unfolding x p by auto
      from Cons.IH[OF srt' this] obtain q
        where "q \<in> set (spec_sweep t (s2, e2) xs)" "fst q \<le> s" "e \<le> snd q" by auto
      then show ?thesis unfolding x p using False by (intro exI[of _ q]) auto
    qed
  qed
qed

lemma tmr_contains:
  assumes "(s, e) \<in> set ranges"
  shows "\<exists>q. q \<in> set (tiered_merge_ranges ranges tier_level) \<and> fst q \<le> s \<and> e \<le> snd q"
proof (cases "sort ranges")
  case Nil
  then have "ranges = []" by (metis length_sort length_0_conv)
  with assms show ?thesis by simp
next
  case (Cons x xs)
  have srt: "sorted (map fst (x # xs))" using Cons sorted_sort[of ranges] lex_sorted_starts by metis
  have "set (x # xs) = set ranges" using Cons set_sort[of "\<lambda>x. x" ranges] by simp
  with assms have "(s, e) \<in> set (x # xs)" by simp
  from spec_sweep_contains[OF srt this, of "merge_threshold tier_level"]
  show ?thesis unfolding tmr_spec_merge using Cons by (simp add: spec_merge_def)
qed

lemma tagged_covering_entry:
  assumes "(s, e) \<in> set ranges"
  shows "\<exists>x. x \<in> set (tag_entries c (tiered_merge_ranges ranges tier_level))
            \<and> entry_code x = c \<and> entry_start x \<le> s \<and> e \<le> entry_end x"
proof -
  from tmr_contains[OF assms, of tier_level] obtain q
    where q: "q \<in> set (tiered_merge_ranges ranges tier_level)" "fst q \<le> s" "e \<le> snd q" by blast
  have "(fst q, snd q, c) \<in> set (tag_entries c (tiered_merge_ranges ranges tier_level))"
    using q(1) by (force simp: tag_entries_set)
  then show ?thesis using q(2,3)
    by (intro exI[of _ "(fst q, snd q, c)"]) (simp add: entry_code_def entry_start_def entry_end_def)
qed

lemma table_has_covering_entry:
  assumes d1: "dom (tier1_data b) = TIER1_COUNTRIES" and d2: "dom (tier2_data b) = TIER2_COUNTRIES"
    and tab: "build_table b = Inr table"
  shows "country \<in> TIER1_COUNTRIES \<Longrightarrow> tier1_data b country = Some l \<Longrightarrow> (s, e) \<in> set l \<Longrightarrow>
           \<exists>x. x \<in> set table \<and> entry_code x = country \<and> entry_start x \<le> s \<and> e \<le> entry_end x"
    and "country \<in> TIER2_COUNTRIES \<Longrightarrow> tier2_data b country = Some l \<Longrightarrow> (s, e) \<in> set l \<Longrightarrow>
           \<exists>x. x \<in> set table \<and> entry_code x = country \<and> entry_start x \<le> s \<and> e \<le> entry_end x"
    and "(s, e) \<in> set (tier3_data b) \<Longrightarrow>
           \<exists>x. x \<in> set table \<and> entry_code x = OTHER_COUNTRY_CODE \<and> entry_start x \<le> s \<and> e \<le> entry_end x"
proof -
  define E1 where "E1 = concat (map (\<lambda>c. tag_entries c (tiered_merge_ranges (the (tier1_data b c)) 1))
                  (sorted_list_of_set TIER1_COUNTRIES))"
  define E2 where "E2 = concat (map (\<lambda>c. tag_entries c (tiered_merge_ranges (the (tier2_data b c)) 2))
                  (sorted_list_of_set TIER2_COUNTRIES))"
  define E3 where "E3 = tag_entries OTHER_COUNTRY_CODE (tiered_merge_ranges (tier3_data b) 3)"
  have "table = sort_key fst (E1 @ E2 @ E3)"
    using build_table_Inr[OF d1 d2] tab unfolding E1_def E2_def E3_def by simp
  then have setT: "set table = set E1 \<union> set E2 \<union> set E3" by auto
  {
    assume m: "country \<in> TIER1_COUNTRIES" and l: "tier1_data b country = Some l" and se: "(s, e) \<in> set l"
    from tagged_covering_entry[OF se, of country 1] obtain x
      where x: "x \<in> set (tag_entries country (tiered_merge_ranges l 1))"
        "entry_code x = country" "entry_start x \<le> s" "e \<le> entry_end x" by blast
    have "x \<in> set (tag_entries country (tiered_merge_ranges (the (tier1_data b country)) 1))"
      using x(1) l by simp
    then have "x \<in> set E1" unfolding E1_def using m finite_tiers(1) by auto
    then show "\<exists>x. x \<in> set table \<and> entry_code x = country \<and> entry_start x \<le> s \<and> e \<le> entry_end x"
      using x(2-4) setT by blast
  }
  {
    assume m: "country \<in> TIER2_COUNTRIES" and l: "tier2_data b country = Some l" and se: "(s, e) \<in> set l"
    from tagged_covering_entry[OF se, of country 2] obtain x
      where x: "x \<in> set (tag_entries country (tiered_merge_ranges l 2))"
        "entry_code x = country" "entry_start x \<le> s" "e \<le> entry_end x" by blast
    have "x \<in> set (tag_entries country (tiered_merge_ranges (the (tier2_data b country)) 2))"
      using x(1) l by simp
    then have "x \<in> set E2" unfolding E2_def using m finite_tiers(2) by auto
    then show "\<exists>x. x \<in> set table \<and> entry_code x = country \<and> entry_start x \<le> s \<and> e \<le> entry_end x"
      using x(2-4) setT by blast
  }
  {
    assume se: "(s, e) \<in> set (tier3_data b)"
    from tagged_covering_entry[OF se, of OTHER_COUNTRY_CODE 3] obtain x
      where x: "x \<in> set E3" "entry_code x = OTHER_COUNTRY_CODE" "entry_start x \<le> s" "e \<le> entry_end x"
      unfolding E3_def by blast
    then show "\<exists>x. x \<in> set table \<and> entry_code x = OTHER_COUNTRY_CODE \<and> entry_start x \<le> s \<and> e \<le> entry_end x"
      using setT by blast
  }
qed

lemma classifier_routes_aux:
  assumes resolved: "lookup_country country_map r = PyStr country" and nonempty: "country \<noteq> []"
    and parsed: "parse_network ip_network r = Inr (s, e)"
    and reachable: "b = classify_rows country_map ip_network init_buckets before"
    and final: "B = classify_rows country_map ip_network init_buckets (before @ r # after)"
    and without: "B0 = classify_rows country_map ip_network init_buckets (before @ after)"
  shows "(country \<in> TIER1_COUNTRIES \<longrightarrow>
            (\<exists>l rest. tier1_data b country = Some l
               \<and> classify_row country_map ip_network b r
                   = b\<lparr>tier1_data := (tier1_data b)(country \<mapsto> l @ [(s, e)])\<rparr>
               \<and> tier1_data B0 country = Some (l @ rest)
               \<and> tier1_data B country = Some (l @ (s, e) # rest))
          \<and> (\<forall>c. c \<noteq> country \<longrightarrow> tier1_data B c = tier1_data B0 c)
          \<and> tier2_data B = tier2_data B0 \<and> tier3_data B = tier3_data B0
          \<and> (\<exists>table x. main_table country_map ip_network (before @ r # after) = Inr table
                 \<and> x \<in> set table \<and> entry_code x = country
                 \<and> entry_start x \<le> s \<and> e \<le> entry_end x))
       \<and> (country \<notin> TIER1_COUNTRIES \<and> country \<in> TIER2_COUNTRIES \<longrightarrow>
            (\<exists>l rest. tier2_data b country = Some l
               \<and> classify_row country_map ip_network b r
                   = b\<lparr>tier2_data := (tier2_data b)(country \<mapsto> l @ [(s, e)])\<rparr>
               \<and> tier2_data B0 country = Some (l @ rest)
               \<and> tier2_data B country = Some (l @ (s, e) # rest))
          \<and> (\<forall>c. c \<noteq> country \<longrightarrow> tier2_data B c = tier2_data B0 c)
          \<and> tier1_data B = tier1_data B0 \<and> tier3_data B = tier3_data B0
          \<and> (\<exists>table x. main_table country_map ip_network (before @ r # after) = Inr table
                 \<and> x \<in> set table \<and> entry_code x = country
                 \<and> entry_start x \<le> s \<and> e \<le> entry_end x))
       \<and> (country \<notin> TIER1_COUNTRIES \<and> country \<notin> TIER2_COUNTRIES \<longrightarrow>
            classify_row country_map ip_network b r = b\<lparr>tier3_data := tier3_data b @ [(s, e)]\<rparr>
          \<and> (\<exists>rest. tier3_data B0 = tier3_data b @ rest
                 \<and> tier3_data B = tier3_data b @ (s, e) # rest)
          \<and> tier1_data B = tier1_data B0 \<and> tier2_data B = tier2_data B0
          \<and> (\<exists>table x. main_table country_map ip_network (before @ r # after) = Inr table
                 \<and> x \<in> set table \<and> entry_code x = ''ZZ''
                 \<and> entry_start x \<le> s \<and> e \<le> entry_end x))
       \<and> merge_others (tier3_data b) all_entries
            = all_entries @ map (\<lambda>(s, e). (s, e, ''ZZ'')) (tiered_merge_ranges (tier3_data b) 3)"
proof -
  define b1 where "b1 = classify_row country_map ip_network b r"
  have d1: "dom (tier1_data b) = TIER1_COUNTRIES" and d2: "dom (tier2_data b) = TIER2_COUNTRIES"
    unfolding reachable using reachable_dom by simp_all
  from classify_row_dom[OF d1 d2, of country_map ip_network r]
  have e1: "dom (tier1_data b1) = TIER1_COUNTRIES" and e2: "dom (tier2_data b1) = TIER2_COUNTRIES"
    unfolding b1_def by simp_all
  have D1: "dom (tier1_data B) = TIER1_COUNTRIES" and D2: "dom (tier2_data B) = TIER2_COUNTRIES"
    unfolding final using reachable_dom by simp_all
  have B: "B = classify_rows country_map ip_network b1 after"
    unfolding final b1_def reachable by (simp add: classify_rows_append classify_rows_Cons)
  have B0: "B0 = classify_rows country_map ip_network b after"
    unfolding without reachable by (simp add: classify_rows_append)
  from classify_rows_appends[of country_map ip_network after] obtain A1 A2 A3 where
    app: "\<And>b'. dom (tier1_data b') = TIER1_COUNTRIES \<Longrightarrow> dom (tier2_data b') = TIER2_COUNTRIES \<Longrightarrow>
       (\<forall>c. tier1_data (classify_rows country_map ip_network b' after) c
               = map_option (\<lambda>l. l @ A1 c) (tier1_data b' c))
     \<and> (\<forall>c. tier2_data (classify_rows country_map ip_network b' after) c
               = map_option (\<lambda>l. l @ A2 c) (tier2_data b' c))
     \<and> tier3_data (classify_rows country_map ip_network b' after) = tier3_data b' @ A3" by blast
  have B_1: "tier1_data B c = map_option (\<lambda>l. l @ A1 c) (tier1_data b1 c)"
    and B_2: "tier2_data B c = map_option (\<lambda>l. l @ A2 c) (tier2_data b1 c)"
    and B_3: "tier3_data B = tier3_data b1 @ A3" for c
    unfolding B using app[OF e1 e2] by simp_all
  have B0_1: "tier1_data B0 c = map_option (\<lambda>l. l @ A1 c) (tier1_data b c)"
    and B0_2: "tier2_data B0 c = map_option (\<lambda>l. l @ A2 c) (tier2_data b c)"
    and B0_3: "tier3_data B0 = tier3_data b @ A3" for c
    unfolding B0 using app[OF d1 d2] by simp_all
  obtain table where tab: "main_table country_map ip_network (before @ r # after) = Inr table"
    using main_table_total by blast
  then have bt: "build_table B = Inr table" unfolding main_table_def final .
  have c1: "country \<in> TIER1_COUNTRIES \<longrightarrow>
            (\<exists>l rest. tier1_data b country = Some l
               \<and> classify_row country_map ip_network b r
                   = b\<lparr>tier1_data := (tier1_data b)(country \<mapsto> l @ [(s, e)])\<rparr>
               \<and> tier1_data B0 country = Some (l @ rest)
               \<and> tier1_data B country = Some (l @ (s, e) # rest))
          \<and> (\<forall>c. c \<noteq> country \<longrightarrow> tier1_data B c = tier1_data B0 c)
          \<and> tier2_data B = tier2_data B0 \<and> tier3_data B = tier3_data B0
          \<and> (\<exists>table x. main_table country_map ip_network (before @ r # after) = Inr table
                 \<and> x \<in> set table \<and> entry_code x = country
                 \<and> entry_start x \<le> s \<and> e \<le> entry_end x)"
  proof
    assume m: "country \<in> TIER1_COUNTRIES"
    with d1 obtain l where l: "tier1_data b country = Some l" by blast
    have step: "b1 = b\<lparr>tier1_data := (tier1_data b)(country \<mapsto> l @ [(s, e)])\<rparr>"
      unfolding b1_def using l resolved nonempty parsed m by (simp add: classify_row_def try_body_def)
    have w0: "tier1_data B0 country = Some (l @ A1 country)" using B0_1[of country] l by simp
    have w1: "tier1_data B country = Some (l @ (s, e) # A1 country)"
      using B_1[of country] step by simp
    have others: "\<forall>c. c \<noteq> country \<longrightarrow> tier1_data B c = tier1_data B0 c"
      using B_1 B0_1 step by simp
    have t2: "tier2_data B = tier2_data B0" using B_2 B0_2 step by (intro ext) simp
    have t3: "tier3_data B = tier3_data B0" using B_3 B0_3 step by simp
    have "(s, e) \<in> set (l @ (s, e) # A1 country)" by simp
    from table_has_covering_entry(1)[OF D1 D2 bt m w1 this] tab
    have "\<exists>table x. main_table country_map ip_network (before @ r # after) = Inr table
                 \<and> x \<in> set table \<and> entry_code x = country
                 \<and> entry_start x \<le> s \<and> e \<le> entry_end x" by blast
    with l step[unfolded b1_def] w0 w1 others t2 t3
    show "(\<exists>l rest. tier1_data b country = Some l
               \<and> classify_row country_map ip_network b r
                   = b\<lparr>tier1_data := (tier1_data b)(country \<mapsto> l @ [(s, e)])\<rparr>
               \<and> tier1_data B0 country = Some (l @ rest)
               \<and> tier1_data B country = Some (l @ (s, e) # rest))
          \<and> (\<forall>c. c \<noteq> country \<longrightarrow> tier1_data B c = tier1_data B0 c)
          \<and> tier2_data B = tier2_data B0 \<and> tier3_data B = tier3_data B0
          \<and> (\<exists>table x. main_table country_map ip_network (before @ r # after) = Inr table
                 \<and> x \<in> set table \<and> entry_code x = country
                 \<and> entry_start x \<le> s \<and> e \<le> entry_end x)" by blast
  qed
  have c2: "country \<notin> TIER1_COUNTRIES \<and> country \<in> TIER2_COUNTRIES \<longrightarrow>
            (\<exists>l rest. tier2_data b country = Some l
               \<and> classify_row country_map ip_network b r
                   = b\<lparr>tier2_data := (tier2_data b)(country \<mapsto> l @ [(s, e)])\<rparr>
               \<and> tier2_data B0 country = Some (l @ rest)
               \<and> tier2_data B country = Some (l @ (s, e) # rest))
          \<and> (\<forall>c. c \<noteq> country \<longrightarrow> tier2_data B c = tier2_data B0 c)
          \<and> tier1_data B = tier1_data B0 \<and> tier3_data B = tier3_data B0
          \<and> (\<exists>table x. main_table country_map ip_network (before @ r # after) = Inr table
                 \<and> x \<in> set table \<and> entry_code x = country
                 \<and> entry_start x \<le> s \<and> e \<le> entry_end x)"
  proof
    assume m: "country \<notin> TIER1_COUNTRIES \<and> country \<in> TIER2_COUNTRIES"
    with d2 obtain l where l: "tier2_data b country = Some l" by blast
    have step: "b1 = b\<lparr>tier2_data := (tier2_data b)(country \<mapsto> l @ [(s, e)])\<rparr>"
      unfolding b1_def using l resolved nonempty parsed m by (simp add: classify_row_def try_body_def)
    have w0: "tier2_data B0 country = Some (l @ A2 country)" using B0_2[of country] l by simp
    have w1: "tier2_data B country = Some (l @ (s, e) # A2 country)"
      using B_2[of country] step by simp
    have others: "\<forall>c. c \<noteq> country \<longrightarrow> tier2_data B c = tier2_data B0 c"
      using B_2 B0_2 step by simp
    have t1: "tier1_data B = tier1_data B0" using B_1 B0_1 step by (intro ext) simp
    have t3: "tier3_data B = tier3_data B0" using B_3 B0_3 step by simp
    have m2: "country \<in> TIER2_COUNTRIES" using m by simp
    have "(s, e) \<in> set (l @ (s, e) # A2 country)" by simp
    from table_has_covering_entry(2)[OF D1 D2 bt m2 w1 this] tab
    have "\<exists>table x. main_table country_map ip_network (before @ r # after) = Inr table
                 \<and> x \<in> set table \<and> entry_code x = country
                 \<and> entry_start x \<le> s \<and> e \<le> entry_end x" by blast
    with l step[unfolded b1_def] w0 w1 others t1 t3
    show "(\<exists>l rest. tier2_data b country = Some l
               \<and> classify_row country_map ip_network b r
                   = b\<lparr>tier2_data := (tier2_data b)(country \<mapsto> l @ [(s, e)])\<rparr>
               \<and> tier2_data B0 country = Some (l @ rest)
               \<and> tier2_data B country = Some (l @ (s, e) # rest))
          \<and> (\<forall>c. c \<noteq> country \<longrightarrow> tier2_data B c = tier2_data B0 c)
          \<and> tier1_data B = tier1_data B0 \<and> tier3_data B = tier3_data B0
          \<and> (\<exists>table x. main_table country_map ip_network (before @ r # after) = Inr table
                 \<and> x \<in> set table \<and> entry_code x = country
                 \<and> entry_start x \<le> s \<and> e \<le> entry_end x)" by blast
  qed
  have c3: "country \<notin> TIER1_COUNTRIES \<and> country \<notin> TIER2_COUNTRIES \<longrightarrow>
            classify_row country_map ip_network b r = b\<lparr>tier3_data := tier3_data b @ [(s, e)]\<rparr>
          \<and> (\<exists>rest. tier3_data B0 = tier3_data b @ rest
                 \<and> tier3_data B = tier3_data b @ (s, e) # rest)
          \<and> tier1_data B = tier1_data B0 \<and> tier2_data B = tier2_data B0
          \<and> (\<exists>table x. main_table country_map ip_network (before @ r # after) = Inr table
                 \<and> x \<in> set table \<and> entry_code x = ''ZZ''
                 \<and> entry_start x \<le> s \<and> e \<le> entry_end x)"
  proof
    assume m: "country \<notin> TIER1_COUNTRIES \<and> country \<notin> TIER2_COUNTRIES"
    have step: "b1 = b\<lparr>tier3_data := tier3_data b @ [(s, e)]\<rparr>"
      unfolding b1_def using resolved nonempty parsed m by (simp add: classify_row_def try_body_def)
    have w1: "tier3_data B = tier3_data b @ (s, e) # A3" using B_3 step by simp
    have t1: "tier1_data B = tier1_data B0" using B_1 B0_1 step by (intro ext) simp
    have t2: "tier2_data B = tier2_data B0" using B_2 B0_2 step by (intro ext) simp
    have "(s, e) \<in> set (tier3_data B)" unfolding w1 by simp
    from table_has_covering_entry(3)[OF D1 D2 bt this] tab
    have "\<exists>table x. main_table country_map ip_network (before @ r # after) = Inr table
                 \<and> x \<in> set table \<and> entry_code x = ''ZZ''
                 \<and> entry_start x \<le> s \<and> e \<le> entry_end x"
      unfolding OTHER_COUNTRY_CODE_def by blast
    with step[unfolded b1_def] B0_3 w1 t1 t2
    show "classify_row country_map ip_network b r = b\<lparr>tier3_data := tier3_data b @ [(s, e)]\<rparr>
          \<and> (\<exists>rest. tier3_data B0 = tier3_data b @ rest
                 \<and> tier3_data B = tier3_data b @ (s, e) # rest)
          \<and> tier1_data B = tier1_data B0 \<and> tier2_data B = tier2_data B0
          \<and> (\<exists>table x. main_table country_map ip_network (before @ r # after) = Inr table
                 \<and> x \<in> set table \<and> entry_code x = ''ZZ''
                 \<and> entry_start x \<le> s \<and> e \<le> entry_end x)" by blast
  qed
  have c4: "merge_others (tier3_data b) all_entries
            = all_entries @ map (\<lambda>(s, e). (s, e, ''ZZ'')) (tiered_merge_ranges (tier3_data b) 3)"
    by (simp add: merge_others_def tag_entries_def OTHER_COUNTRY_CODE_def tiered_merge_ranges_def)
  from c1 c2 c3 c4 show ?thesis by (intro conjI)
qed

section \<open>Claims about the merger\<close>

text \<open>
  C2. The merger sorts its input ascending by the pair \<open>(start, end)\<close> and makes one
  left-to-right sweep in which the open interval \<open>(cs, ce)\<close> absorbs \<open>(s, e)\<close>, its end
  becoming \<open>max ce e\<close>, exactly when \<open>s - ce \<le> threshold\<close>, and is emitted otherwise,
  the last open interval being emitted at the end; the threshold is 1 for tier 1, 262144
  for tier 2 and 16777216 for tier 3. The source function equals \<open>spec_merge\<close>, the
  merger in the specification's words, at each of the three thresholds, for every input
  list.
\<close>

theorem merger_is_sort_and_sweep:
  "tiered_merge_ranges ranges 1 = spec_merge 1 ranges
   \<and> tiered_merge_ranges ranges 2 = spec_merge 262144 ranges
   \<and> tiered_merge_ranges ranges 3 = spec_merge 16777216 ranges"
  by (simp add: tmr_spec_merge merge_threshold_def)

text \<open>The specification's worked example of the sweep, with threshold 5.\<close>

lemma spec_merge_example:
  "spec_merge 5 [(10, 20), (25, 30), (1000, 1005)] = [(10, 30), (1000, 1005)]"
  by (simp add: spec_merge_def)

text \<open>
  C3, as stated, fails: at tier 2 the blocks 1.0.0.0/24 and 1.0.2.0/24 are merged into
  one interval, which covers the address 1.0.1.0 that no input range covers.
\<close>

theorem merger_coverage_counterexample:
  "coverage (tiered_merge_ranges [(16777216, 16777471), (16777728, 16777983)] 2)
     \<noteq> coverage [(16777216, 16777471), (16777728, 16777983)]"
proof -
  have "(16777472::int) \<in> coverage (tiered_merge_ranges [(16777216, 16777471), (16777728, 16777983)] 2)"
    by (simp add: tiered_merge_ranges_def merge_threshold_def coverage_def)
  moreover have "(16777472::int) \<notin> coverage [(16777216, 16777471), (16777728, 16777983)]"
    by (simp add: coverage_def)
  ultimately show ?thesis by metis
qed

text \<open>
  C3, amended. For every tier level and input list: every address covered by an input
  range is covered by an output range of the merger (coverage is never dropped); every
  address covered by an output range is covered by an input range or lies strictly
  between two input ranges whose distance, from the end of one to the start of the
  other, is at most the tier's threshold (only bridged gaps are added); and at tier 1
  the addresses covered by the output are exactly those covered by the input.
\<close>

theorem merger_coverage_bounds:
  "coverage ranges \<subseteq> coverage (tiered_merge_ranges ranges tier_level)
   \<and> coverage (tiered_merge_ranges ranges tier_level)
       \<subseteq> coverage ranges \<union> gap_addresses (merge_threshold tier_level) ranges
   \<and> coverage (tiered_merge_ranges ranges 1) = coverage ranges"
proof (intro conjI)
  show "coverage ranges \<subseteq> coverage (tiered_merge_ranges ranges tier_level)"
    unfolding tmr_spec_merge by (rule spec_merge_covers_input)
  show "coverage (tiered_merge_ranges ranges tier_level)
       \<subseteq> coverage ranges \<union> gap_addresses (merge_threshold tier_level) ranges"
    unfolding tmr_spec_merge by (rule spec_merge_upper)
  have "merge_threshold 1 = 1" by (simp add: merge_threshold_def)
  then show "coverage (tiered_merge_ranges ranges 1) = coverage ranges"
    unfolding tmr_spec_merge by (simp add: spec_merge_adjacent_coverage)
qed

text \<open>
  C5. For every input list and any two tier levels whose thresholds satisfy
  \<open>t1 < t2\<close>, merging with the larger threshold never produces more intervals than
  merging the same input with the smaller one.
\<close>

theorem threshold_monotonicity:
  "merge_threshold tier_a < merge_threshold tier_b \<Longrightarrow>
   length (tiered_merge_ranges ranges tier_b) \<le> length (tiered_merge_ranges ranges tier_a)"
  unfolding tmr_spec_merge by (rule spec_merge_mono_length) simp

theorem threshold_monotonicity_witness:
  "merge_threshold 1 < merge_threshold 2
   \<and> length (tiered_merge_ranges [(0, 0), (5, 5)] 2) \<le> length (tiered_merge_ranges [(0, 0), (5, 5)] 1)
   \<and> length (tiered_merge_ranges [(0, 0), (5, 5)] 2) = 1
   \<and> length (tiered_merge_ranges [(0, 0), (5, 5)] 1) = 2"
proof -
  have h: "merge_threshold 1 < merge_threshold 2" by (simp add: merge_threshold_def)
  have "length (tiered_merge_ranges [(0, 0), (5, 5)] 2) = 1"
    and "length (tiered_merge_ranges [(0, 0), (5, 5)] 1) = 2"
    by (simp_all add: tiered_merge_ranges_def merge_threshold_def)
  with h threshold_monotonicity[OF h, of "[(0, 0), (5, 5)]"] show ?thesis by blast
qed

text \<open>
  C6. The merger is idempotent: for every input list and every tier level, merging the
  merger's own output again at the same tier level returns that output unchanged.
\<close>

theorem merger_idempotent:
  "tiered_merge_ranges (tiered_merge_ranges ranges tier_level) tier_level
     = tiered_merge_ranges ranges tier_level"
  unfolding tmr_spec_merge by (rule spec_merge_idem)

text \<open>
  C10. For every non-empty input list whose pairs all satisfy \<open>start \<le> end\<close>, with
  \<open>t\<close> the threshold of the tier level, the merger's output has strictly increasing
  starts, every consecutive pair is more than \<open>t\<close> apart (\<open>gaps_exceed\<close>), as is
  every later interval from every earlier one, the output intervals are pairwise
  disjoint, every output pair satisfies \<open>start \<le> end\<close>, and the output has at least
  one and at most as many intervals as the input.
\<close>

theorem merger_output_invariants:
  assumes nonempty: "ranges \<noteq> []" and input_valid: "valid_ranges ranges"
  shows "(let out = tiered_merge_ranges ranges tier_level; t = merge_threshold tier_level in
            sorted_wrt (<) (map fst out)
          \<and> gaps_exceed t out
          \<and> (\<forall>i j. i < j \<and> j < length out \<longrightarrow> t < fst (out ! j) - snd (out ! i))
          \<and> (\<forall>i j. i < length out \<and> j < length out \<and> i \<noteq> j \<longrightarrow>
                {fst (out ! i)..snd (out ! i)} \<inter> {fst (out ! j)..snd (out ! j)} = {})
          \<and> valid_ranges out
          \<and> 1 \<le> length out \<and> length out \<le> length ranges)"
proof -
  define out where "out = tiered_merge_ranges ranges tier_level"
  define t where "t = merge_threshold tier_level"
  have t0: "0 \<le> t" unfolding t_def by (rule merge_threshold_pos)
  have assms': "ranges \<noteq> []" "\<forall>(s, e) \<in> set ranges. s \<le> e"
    using nonempty input_valid by (simp_all add: valid_ranges_iff)
  have out: "out = spec_merge t ranges" unfolding out_def t_def by (rule tmr_spec_merge)
  have pw: "sorted_wrt (\<lambda>a b. t < fst b - snd a) out"
    unfolding out using assms' t0 by (rule spec_merge_props(1))
  have valid: "\<forall>(s, e) \<in> set out. s \<le> e"
    unfolding out using assms' t0 by (rule spec_merge_props(2))
  have ne: "out \<noteq> []" unfolding out using assms' t0 by (rule spec_merge_props(3))
  have len: "length out \<le> length ranges" unfolding out using assms' t0 by (rule spec_merge_props(4))
  have gaps: "gaps_exceed t out"
  proof (cases "sort ranges")
    case Nil
    then show ?thesis unfolding out by (simp add: spec_merge_def)
  next
    case (Cons x xs)
    then show ?thesis unfolding out by (simp add: spec_merge_def spec_sweep_gaps)
  qed
  have far: "\<forall>i j. i < j \<and> j < length out \<longrightarrow> t < fst (out ! j) - snd (out ! i)"
    using pw by (simp add: sorted_wrt_iff_nth_less)
  have starts: "sorted_wrt (\<lambda>a b. fst a < fst b) out"
  proof (rule sorted_wrt_mono_rel[OF _ pw])
    fix a b assume "a \<in> set out" "b \<in> set out" "t < fst b - snd a"
    moreover from \<open>a \<in> set out\<close> valid have "fst a \<le> snd a" by (cases a) auto
    ultimately show "fst a < fst b" using t0 by simp
  qed
  then have strict: "sorted_wrt (<) (map fst out)" by (simp add: sorted_wrt_map)
  have disj: "\<forall>i j. i < length out \<and> j < length out \<and> i \<noteq> j \<longrightarrow>
                {fst (out ! i)..snd (out ! i)} \<inter> {fst (out ! j)..snd (out ! j)} = {}"
  proof (intro allI impI)
    fix i j assume h: "i < length out \<and> j < length out \<and> i \<noteq> j"
    then consider "i < j" | "j < i" by linarith
    then show "{fst (out ! i)..snd (out ! i)} \<inter> {fst (out ! j)..snd (out ! j)} = {}"
    proof cases
      case 1
      with far h have "t < fst (out ! j) - snd (out ! i)" by blast
      then show ?thesis using t0 by auto
    next
      case 2
      with far h have "t < fst (out ! i) - snd (out ! j)" by blast
      then show ?thesis using t0 by auto
    qed
  qed
  have "1 \<le> length out" using ne by (cases out) auto
  moreover have "valid_ranges out" using valid by (simp add: valid_ranges_iff)
  ultimately have "1 \<le> length out" "valid_ranges out" by simp_all
  with strict gaps far disj len
  show ?thesis unfolding Let_def out_def[symmetric] t_def[symmetric] by blast
qed

theorem merger_output_invariants_witness:
  "([(10, 20), (0, 5), (21, 30), (40, 41)] :: range list) \<noteq> []
   \<and> valid_ranges [(10, 20), (0, 5), (21, 30), (40, 41)]
   \<and> tiered_merge_ranges [(10, 20), (0, 5), (21, 30), (40, 41)] 1 = [(0, 5), (10, 30), (40, 41)]
   \<and> (let out = tiered_merge_ranges [(10, 20), (0, 5), (21, 30), (40, 41)] 1; t = merge_threshold 1 in
            sorted_wrt (<) (map fst out)
          \<and> gaps_exceed t out
          \<and> (\<forall>i j. i < j \<and> j < length out \<longrightarrow> t < fst (out ! j) - snd (out ! i))
          \<and> (\<forall>i j. i < length out \<and> j < length out \<and> i \<noteq> j \<longrightarrow>
                {fst (out ! i)..snd (out ! i)} \<inter> {fst (out ! j)..snd (out ! j)} = {})
          \<and> valid_ranges out
          \<and> 1 \<le> length out \<and> length out \<le> length ([(10, 20), (0, 5), (21, 30), (40, 41)] :: range list))"
proof -
  have h1: "([(10, 20), (0, 5), (21, 30), (40, 41)] :: range list) \<noteq> []" by simp
  have h2: "valid_ranges [(10, 20), (0, 5), (21, 30), (40, 41)]" by (simp add: valid_ranges_def)
  have ev: "tiered_merge_ranges [(10, 20), (0, 5), (21, 30), (40, 41)] 1 = [(0, 5), (10, 30), (40, 41)]"
    by (simp add: tiered_merge_ranges_def merge_threshold_def)
  from h1 h2 ev merger_output_invariants[OF h1 h2, of 1] show ?thesis by blast
qed

section \<open>Base cases and configuration\<close>

text \<open>
  C9. The merger returns the empty list for empty input and returns a single-element
  input unchanged; the two tier sets are disjoint and the catch-all code \<open>ZZ\<close> is in
  neither of them.
\<close>

theorem merger_base_cases_and_tier_sets:
  "tiered_merge_ranges [] tier_level = []
   \<and> tiered_merge_ranges [(s, e)] tier_level = [(s, e)]
   \<and> TIER1_COUNTRIES \<inter> TIER2_COUNTRIES = {}
   \<and> OTHER_COUNTRY_CODE = ''ZZ''
   \<and> OTHER_COUNTRY_CODE \<notin> TIER1_COUNTRIES
   \<and> OTHER_COUNTRY_CODE \<notin> TIER2_COUNTRIES"
  by (simp add: tiered_merge_ranges_def TIER1_COUNTRIES_def TIER2_COUNTRIES_def
      OTHER_COUNTRY_CODE_def)

section \<open>Claims about the classifier\<close>

text \<open>
  C7. The classifier routes every classified record to exactly one bucket. Take a row
  \<open>r\<close> anywhere in the rows of a run, whose country resolves to a non-empty code and
  whose network parses to \<open>(s, e)\<close>; \<open>b\<close> are the buckets when the loop reaches the
  row, \<open>B\<close> the buckets at the end of the loop, and \<open>B0\<close> the buckets at the end of
  the same run without the row. A code in \<open>TIER1_COUNTRIES\<close>: the row appends \<open>(s, e)\<close>
  to that code's tier-1 list, and at the end of the loop that list is the one of the run
  without the row with \<open>(s, e)\<close> inserted, every other tier-1 list, the tier-2 lists and
  the tier-3 list being the same; the final table has an entry under that code whose
  range contains \<open>[s, e]\<close>. Otherwise a code in \<open>TIER2_COUNTRIES\<close>: the same with that
  code's tier-2 list. Otherwise: the same with the single tier-3 list, which holds no
  codes, and the final table has an entry under the catch-all code \<open>ZZ\<close> whose range
  contains \<open>[s, e]\<close>.
\<close>

theorem classifier_routes_to_one_bucket:
  assumes resolved: "lookup_country country_map r = PyStr country" and nonempty: "country \<noteq> []"
    and parsed: "parse_network ip_network r = Inr (s, e)"
  shows "(let b = classify_rows country_map ip_network init_buckets before;
              B = classify_rows country_map ip_network init_buckets (before @ r # after);
              B0 = classify_rows country_map ip_network init_buckets (before @ after)
          in
          (country \<in> TIER1_COUNTRIES \<longrightarrow>
            (\<exists>l rest. tier1_data b country = Some l
               \<and> classify_row country_map ip_network b r
                   = b\<lparr>tier1_data := (tier1_data b)(country \<mapsto> l @ [(s, e)])\<rparr>
               \<and> tier1_data B0 country = Some (l @ rest)
               \<and> tier1_data B country = Some (l @ (s, e) # rest))
          \<and> (\<forall>c. c \<noteq> country \<longrightarrow> tier1_data B c = tier1_data B0 c)
          \<and> tier2_data B = tier2_data B0 \<and> tier3_data B = tier3_data B0
          \<and> (\<exists>table x. main_table country_map ip_network (before @ r # after) = Inr table
                 \<and> x \<in> set table \<and> entry_code x = country
                 \<and> entry_start x \<le> s \<and> e \<le> entry_end x))
       \<and> (country \<notin> TIER1_COUNTRIES \<and> country \<in> TIER2_COUNTRIES \<longrightarrow>
            (\<exists>l rest. tier2_data b country = Some l
               \<and> classify_row country_map ip_network b r
                   = b\<lparr>tier2_data := (tier2_data b)(country \<mapsto> l @ [(s, e)])\<rparr>
               \<and> tier2_data B0 country = Some (l @ rest)
               \<and> tier2_data B country = Some (l @ (s, e) # rest))
          \<and> (\<forall>c. c \<noteq> country \<longrightarrow> tier2_data B c = tier2_data B0 c)
          \<and> tier1_data B = tier1_data B0 \<and> tier3_data B = tier3_data B0
          \<and> (\<exists>table x. main_table country_map ip_network (before @ r # after) = Inr table
                 \<and> x \<in> set table \<and> entry_code x = country
                 \<and> entry_start x \<le> s \<and> e \<le> entry_end x))
       \<and> (country \<notin> TIER1_COUNTRIES \<and> country \<notin> TIER2_COUNTRIES \<longrightarrow>
            classify_row country_map ip_network b r = b\<lparr>tier3_data := tier3_data b @ [(s, e)]\<rparr>
          \<and> (\<exists>rest. tier3_data B0 = tier3_data b @ rest
                 \<and> tier3_data B = tier3_data b @ (s, e) # rest)
          \<and> tier1_data B = tier1_data B0 \<and> tier2_data B = tier2_data B0
          \<and> (\<exists>table x. main_table country_map ip_network (before @ r # after) = Inr table
                 \<and> x \<in> set table \<and> entry_code x = ''ZZ''
                 \<and> entry_start x \<le> s \<and> e \<le> entry_end x))
       \<and> merge_others (tier3_data b) all_entries
            = all_entries @ map (\<lambda>(s, e). (s, e, ''ZZ'')) (tiered_merge_ranges (tier3_data b) 3))"
  unfolding Let_def by (rule classifier_routes_aux[OF resolved nonempty parsed refl refl refl])

theorem classifier_routes_to_one_bucket_witness:
  "lookup_country sample_country_map row_cn_a = PyStr ''CN''
   \<and> parse_network sample_ip_network row_cn_a = Inr (16777472, 16777727)
   \<and> ''CN'' \<in> TIER1_COUNTRIES
   \<and> tier1_data (classify_rows sample_country_map sample_ip_network init_buckets
                   ([row_br_a] @ [row_br_b, row_cn_b])) ''CN''
       = Some [(16779264, 16781311)]
   \<and> tier1_data (classify_rows sample_country_map sample_ip_network init_buckets
                   ([row_br_a] @ row_cn_a # [row_br_b, row_cn_b])) ''CN''
       = Some [(16777472, 16777727), (16779264, 16781311)]
   \<and> tier2_data (classify_rows sample_country_map sample_ip_network init_buckets
                   ([row_br_a] @ row_cn_a # [row_br_b, row_cn_b]))
       = tier2_data (classify_rows sample_country_map sample_ip_network init_buckets
                   ([row_br_a] @ [row_br_b, row_cn_b]))
   \<and> tier3_data (classify_rows sample_country_map sample_ip_network init_buckets
                   ([row_br_a] @ row_cn_a # [row_br_b, row_cn_b]))
       = tier3_data (classify_rows sample_country_map sample_ip_network init_buckets
                   ([row_br_a] @ [row_br_b, row_cn_b]))
   \<and> (\<exists>table x. main_table sample_country_map sample_ip_network
                    ([row_br_a] @ row_cn_a # [row_br_b, row_cn_b]) = Inr table
          \<and> x \<in> set table \<and> entry_code x = ''CN''
          \<and> entry_start x \<le> 16777472 \<and> 16777727 \<le> entry_end x)
   \<and> lookup_country sample_country_map row_br_a = PyStr ''BR''
   \<and> parse_network sample_ip_network row_br_a = Inr (16777216, 16777471)
   \<and> (\<exists>table x. main_table sample_country_map sample_ip_network
                    ([] @ row_br_a # [row_cn_a, row_br_b, row_cn_b]) = Inr table
          \<and> x \<in> set table \<and> entry_code x = ''ZZ''
          \<and> entry_start x \<le> 16777216 \<and> 16777471 \<le> entry_end x)"
proof -
  have h1: "lookup_country sample_country_map row_cn_a = PyStr ''CN''"
    by (simp add: lookup_country_def py_or_def row_get_def truthy_def)
  have h2: "''CN'' \<noteq> []" by simp
  have h3: "parse_network sample_ip_network row_cn_a = Inr (16777472, 16777727)"
    by (simp add: parse_network_def)
  have m: "''CN'' \<in> TIER1_COUNTRIES" by (simp add: TIER1_COUNTRIES_def)
  note cn = classifier_routes_to_one_bucket[OF h1 h2 h3, where before = "[row_br_a]"
      and after = "[row_br_b, row_cn_b]" and all_entries = "[]", unfolded Let_def]
  from cn m have
    t2: "tier2_data (classify_rows sample_country_map sample_ip_network init_buckets
                   ([row_br_a] @ row_cn_a # [row_br_b, row_cn_b]))
       = tier2_data (classify_rows sample_country_map sample_ip_network init_buckets
                   ([row_br_a] @ [row_br_b, row_cn_b]))"
    and t3: "tier3_data (classify_rows sample_country_map sample_ip_network init_buckets
                   ([row_br_a] @ row_cn_a # [row_br_b, row_cn_b]))
       = tier3_data (classify_rows sample_country_map sample_ip_network init_buckets
                   ([row_br_a] @ [row_br_b, row_cn_b]))"
    and tb: "\<exists>table x. main_table sample_country_map sample_ip_network
                    ([row_br_a] @ row_cn_a # [row_br_b, row_cn_b]) = Inr table
          \<and> x \<in> set table \<and> entry_code x = ''CN''
          \<and> entry_start x \<le> 16777472 \<and> 16777727 \<le> entry_end x"
    by blast+
  have w0: "tier1_data (classify_rows sample_country_map sample_ip_network init_buckets
                   ([row_br_a] @ [row_br_b, row_cn_b])) ''CN'' = Some [(16779264, 16781311)]"
    unfolding sample_classify_without_cn_a by simp
  have "[row_br_a] @ row_cn_a # [row_br_b, row_cn_b] = sample_rows" by simp
  then have w1: "tier1_data (classify_rows sample_country_map sample_ip_network init_buckets
                   ([row_br_a] @ row_cn_a # [row_br_b, row_cn_b])) ''CN''
       = Some [(16777472, 16777727), (16779264, 16781311)]"
    using sample_classify by simp
  have g1: "lookup_country sample_country_map row_br_a = PyStr ''BR''"
    by (simp add: lookup_country_def py_or_def row_get_def truthy_def)
  have g2: "''BR'' \<noteq> []" by simp
  have g3: "parse_network sample_ip_network row_br_a = Inr (16777216, 16777471)"
    by (simp add: parse_network_def)
  have nm: "''BR'' \<notin> TIER1_COUNTRIES \<and> ''BR'' \<notin> TIER2_COUNTRIES"
    by (simp add: TIER1_COUNTRIES_def TIER2_COUNTRIES_def)
  note br = classifier_routes_to_one_bucket[OF g1 g2 g3, where before = "[]"
      and after = "[row_cn_a, row_br_b, row_cn_b]" and all_entries = "[]", unfolded Let_def]
  from br nm have zz: "\<exists>table x. main_table sample_country_map sample_ip_network
                    ([] @ row_br_a # [row_cn_a, row_br_b, row_cn_b]) = Inr table
          \<and> x \<in> set table \<and> entry_code x = ''ZZ''
          \<and> entry_start x \<le> 16777216 \<and> 16777471 \<le> entry_end x"
    by blast
  from h1 h3 m w0 w1 t2 t3 tb g1 g3 zz show ?thesis by (intro conjI)
qed

text \<open>
  C8, as stated, fails: an exception that the reader raises while it fetches a row is
  not skipped. It leaves the row loop and ends the run without a table, where the run
  without that row gives one.
\<close>

theorem reader_error_escapes_counterexample:
  "main_run sample_country_map sample_ip_network
     [Inr row_br_a, Inr row_cn_a, Inl UnicodeDecodeError, Inr row_br_b, Inr row_cn_b]
     = Inl UnicodeDecodeError
   \<and> main_run sample_country_map sample_ip_network
     [Inr row_br_a, Inr row_cn_a, Inr row_br_b, Inr row_cn_b] = Inr sample_table"
proof -
  have "main_run sample_country_map sample_ip_network
     [Inr row_br_a, Inr row_cn_a, Inl UnicodeDecodeError, Inr row_br_b, Inr row_cn_b]
     = Inl UnicodeDecodeError"
    by (simp add: main_run_def)
  moreover have "main_run sample_country_map sample_ip_network (map Inr sample_rows) = Inr sample_table"
    unfolding main_run_delivered by (rule sample_main_table)
  ultimately show ?thesis by simp
qed

text \<open>
  C8, amended. A row that the reader delivers and whose country is empty or unresolved (a
  join miss against the locations mapping included) is dropped: it is added to no bucket,
  the catch-all tier included. A delivered row whose network field is absent or fails to
  parse is skipped as well. In both cases the buckets stay as they were, the loop goes on
  with the remaining items, and the result of the run is that of the run without the
  row: no exception of the body of the inner \<open>try\<close> leaves the classifier. An exception
  that the reader raises while it fetches a row, after rows it delivered, is the result
  of the row loop and of the run.
\<close>

theorem classifier_skips_unusable_rows:
  assumes unusable:
    "country_map (py_or (row_get r ''registered_country_geoname_id'') (row_get r ''geoname_id'')) = None
     \<or> lookup_country country_map r = PyNone
     \<or> lookup_country country_map r = PyStr []
     \<or> (\<exists>err. parse_network ip_network r = Inl err)"
  shows "classify_row country_map ip_network b r = b
       \<and> classify_rows country_map ip_network b (before @ r # after)
           = classify_rows country_map ip_network b (before @ after)
       \<and> main_table country_map ip_network (before @ r # after)
           = main_table country_map ip_network (before @ after)
       \<and> classify_reader country_map ip_network b (items_before @ Inr r # items_after)
           = classify_reader country_map ip_network b (items_before @ items_after)
       \<and> main_run country_map ip_network (items_before @ Inr r # items_after)
           = main_run country_map ip_network (items_before @ items_after)
       \<and> classify_reader country_map ip_network b (map Inr delivered @ Inl reader_error # items_after)
           = Inl reader_error
       \<and> main_run country_map ip_network (map Inr delivered @ Inl reader_error # items_after)
           = Inl reader_error"
proof -
  have skip: "classify_row country_map ip_network b' r = b'" for b'
    using unusable
    by (auto simp: classify_row_def try_body_def lookup_country_def split: pyval.splits)
  have rows: "classify_rows country_map ip_network b' (before @ r # after)
           = classify_rows country_map ip_network b' (before @ after)" for b'
    by (simp add: classify_rows_append classify_rows_Cons skip)
  have items: "classify_reader country_map ip_network b' (items_before @ Inr r # items_after)
           = classify_reader country_map ip_network b' (items_before @ items_after)" for b'
    using skip by (rule classify_reader_skip)
  have err: "classify_reader country_map ip_network b' (map Inr delivered @ Inl reader_error # items_after)
           = Inl reader_error" for b'
    by (rule classify_reader_error)
  show ?thesis using skip rows items err by (simp add: main_table_def main_run_def)
qed

theorem classifier_skips_unusable_rows_witness:
  "sample_country_map (py_or (row_get row_join_miss ''registered_country_geoname_id'')
                             (row_get row_join_miss ''geoname_id'')) = None
   \<and> parse_network sample_ip_network row_bad_network = Inl ValueError
   \<and> classify_row sample_country_map sample_ip_network init_buckets row_join_miss = init_buckets
   \<and> classify_row sample_country_map sample_ip_network init_buckets row_bad_network = init_buckets
   \<and> main_table sample_country_map sample_ip_network
        ([row_br_a, row_cn_a] @ row_join_miss # [row_br_b, row_cn_b]) = Inr sample_table
   \<and> main_table sample_country_map sample_ip_network
        ([row_br_a, row_cn_a] @ row_bad_network # [row_br_b, row_cn_b]) = Inr sample_table
   \<and> main_run sample_country_map sample_ip_network
        ([Inr row_br_a, Inr row_cn_a] @ Inr row_join_miss # [Inr row_br_b, Inr row_cn_b])
       = Inr sample_table
   \<and> main_run sample_country_map sample_ip_network
        ([Inr row_br_a, Inr row_cn_a] @ Inr row_bad_network # [Inr row_br_b, Inr row_cn_b])
       = Inr sample_table
   \<and> main_run sample_country_map sample_ip_network
        (map Inr [row_br_a, row_cn_a] @ Inl CsvError # [Inr row_br_b, Inr row_cn_b])
       = Inl CsvError"
proof -
  have miss: "sample_country_map (py_or (row_get row_join_miss ''registered_country_geoname_id'')
                             (row_get row_join_miss ''geoname_id'')) = None"
    by (simp add: py_or_def row_get_def truthy_def)
  have bad: "parse_network sample_ip_network row_bad_network = Inl ValueError"
    by (simp add: parse_network_def)
  have tab: "main_table sample_country_map sample_ip_network ([row_br_a, row_cn_a] @ [row_br_b, row_cn_b])
               = Inr sample_table"
    using sample_main_table by simp
  have "main_run sample_country_map sample_ip_network (map Inr sample_rows) = Inr sample_table"
    unfolding main_run_delivered by (rule sample_main_table)
  then have run: "main_run sample_country_map sample_ip_network
                    ([Inr row_br_a, Inr row_cn_a] @ [Inr row_br_b, Inr row_cn_b]) = Inr sample_table"
    by simp
  from miss have u1:
    "sample_country_map (py_or (row_get row_join_miss ''registered_country_geoname_id'')
                               (row_get row_join_miss ''geoname_id'')) = None
     \<or> lookup_country sample_country_map row_join_miss = PyNone
     \<or> lookup_country sample_country_map row_join_miss = PyStr []
     \<or> (\<exists>err. parse_network sample_ip_network row_join_miss = Inl err)" by blast
  from bad have u2:
    "sample_country_map (py_or (row_get row_bad_network ''registered_country_geoname_id'')
                               (row_get row_bad_network ''geoname_id'')) = None
     \<or> lookup_country sample_country_map row_bad_network = PyNone
     \<or> lookup_country sample_country_map row_bad_network = PyStr []
     \<or> (\<exists>err. parse_network sample_ip_network row_bad_network = Inl err)" by blast
  note w1 = classifier_skips_unusable_rows[OF u1, where b = init_buckets
      and before = "[row_br_a, row_cn_a]" and after = "[row_br_b, row_cn_b]"
      and items_before = "[Inr row_br_a, Inr row_cn_a]" and items_after = "[Inr row_br_b, Inr row_cn_b]"
      and delivered = "[row_br_a, row_cn_a]" and reader_error = CsvError]
  note w2 = classifier_skips_unusable_rows[OF u2, where b = init_buckets
      and before = "[row_br_a, row_cn_a]" and after = "[row_br_b, row_cn_b]"
      and items_before = "[Inr row_br_a, Inr row_cn_a]" and items_after = "[Inr row_br_b, Inr row_cn_b]"
      and delivered = "[row_br_a, row_cn_a]" and reader_error = CsvError]
  from w1 have a1: "classify_row sample_country_map sample_ip_network init_buckets row_join_miss = init_buckets"
    and a2: "main_table sample_country_map sample_ip_network
        ([row_br_a, row_cn_a] @ row_join_miss # [row_br_b, row_cn_b])
        = main_table sample_country_map sample_ip_network ([row_br_a, row_cn_a] @ [row_br_b, row_cn_b])"
    and a3: "main_run sample_country_map sample_ip_network
        ([Inr row_br_a, Inr row_cn_a] @ Inr row_join_miss # [Inr row_br_b, Inr row_cn_b])
        = main_run sample_country_map sample_ip_network
            ([Inr row_br_a, Inr row_cn_a] @ [Inr row_br_b, Inr row_cn_b])"
    and a4: "main_run sample_country_map sample_ip_network
        (map Inr [row_br_a, row_cn_a] @ Inl CsvError # [Inr row_br_b, Inr row_cn_b]) = Inl CsvError"
    by blast+
  from w2 have b1: "classify_row sample_country_map sample_ip_network init_buckets row_bad_network = init_buckets"
    and b2: "main_table sample_country_map sample_ip_network
        ([row_br_a, row_cn_a] @ row_bad_network # [row_br_b, row_cn_b])
        = main_table sample_country_map sample_ip_network ([row_br_a, row_cn_a] @ [row_br_b, row_cn_b])"
    and b3: "main_run sample_country_map sample_ip_network
        ([Inr row_br_a, Inr row_cn_a] @ Inr row_bad_network # [Inr row_br_b, Inr row_cn_b])
        = main_run sample_country_map sample_ip_network
            ([Inr row_br_a, Inr row_cn_a] @ [Inr row_br_b, Inr row_cn_b])"
    by blast+
  from miss bad a1 b1 a2[unfolded tab] b2[unfolded tab] a3[unfolded run] b3[unfolded run] a4
  show ?thesis by (intro conjI)
qed

section \<open>Claims about the final table\<close>

text \<open>
  C4. The final table exists for every input and is sorted ascending by start: every
  entry's start is at most the start of the entry after it.
\<close>

theorem final_table_sorted_by_start:
  "\<exists>table. main_table country_map ip_network rows = Inr table
     \<and> sorted (map entry_start table)
     \<and> (\<forall>i. Suc i < length table \<longrightarrow> entry_start (table ! i) \<le> entry_start (table ! Suc i))"
proof -
  obtain table where tab: "main_table country_map ip_network rows = Inr table"
    using main_table_total by blast
  then have "sorted (map fst table)" unfolding main_table_def by (rule build_table_sorted)
  moreover have "entry_start = fst" by (rule ext) (simp add: entry_start_def)
  ultimately have srt: "sorted (map entry_start table)" by simp
  have "\<forall>i. Suc i < length table \<longrightarrow> entry_start (table ! i) \<le> entry_start (table ! Suc i)"
  proof (intro allI impI)
    fix i assume h: "Suc i < length table"
    then have "map entry_start table ! i \<le> map entry_start table ! Suc i"
      using srt by (simp add: sorted_iff_nth_Suc del: nth_map)
    then show "entry_start (table ! i) \<le> entry_start (table ! Suc i)" using h by simp
  qed
  with tab srt show ?thesis by blast
qed

theorem final_table_sorted_by_start_witness:
  "main_table sample_country_map sample_ip_network sample_rows = Inr sample_table
   \<and> sorted (map entry_start sample_table)"
proof -
  from final_table_sorted_by_start[of sample_country_map sample_ip_network sample_rows]
  obtain table where tab: "main_table sample_country_map sample_ip_network sample_rows = Inr table"
    and srt: "sorted (map entry_start table)" by blast
  from tab have "table = sample_table" using sample_main_table by simp
  with srt sample_main_table show ?thesis by blast
qed

text \<open>
  C1, as stated, fails. With the source blocks 1.0.0.0/24 and 1.0.2.0/24 registered to
  Brazil and 1.0.1.0/24 to China, which are pairwise disjoint, tier 3 bridges the gap
  between the two Brazilian blocks, and the resulting \<open>ZZ\<close> entry contains the whole
  Chinese entry.
\<close>

theorem final_table_overlap_counterexample:
  "main_table sample_country_map sample_ip_network sample_rows = Inr sample_table
   \<and> entry_code (sample_table ! 0) = ''ZZ'' \<and> entry_code (sample_table ! 1) = ''CN''
   \<and> entry_addresses (sample_table ! 0) \<inter> entry_addresses (sample_table ! 1) \<noteq> {}"
proof -
  have "(16777472::int) \<in> entry_addresses (sample_table ! 0) \<inter> entry_addresses (sample_table ! 1)"
    by (simp add: entry_addresses_def entry_start_def entry_end_def)
  then have "entry_addresses (sample_table ! 0) \<inter> entry_addresses (sample_table ! 1) \<noteq> {}"
    by blast
  then show ?thesis using sample_main_table by (simp add: entry_code_def)
qed

text \<open>
  C1, amended. When every parsed block satisfies \<open>start \<le> end\<close>, any two distinct
  entries of the final table that carry the same code have disjoint address ranges.
  Entries of different codes can overlap, because each list is merged on its own and
  the bridged gaps of one list can hold addresses of another.
\<close>

theorem same_code_entries_disjoint:
  assumes "\<forall>text s e. ip_network text = Some (s, e) \<longrightarrow> s \<le> e"
  shows "\<exists>table. main_table country_map ip_network rows = Inr table
           \<and> (\<forall>i j. i < length table \<and> j < length table \<and> i \<noteq> j
                    \<and> entry_code (table ! i) = entry_code (table ! j)
                 \<longrightarrow> entry_addresses (table ! i) \<inter> entry_addresses (table ! j) = {})"
proof -
  define b where "b = classify_rows country_map ip_network init_buckets rows"
  obtain table where tab: "build_table b = Inr table"
    using main_table_total[of country_map ip_network rows] unfolding main_table_def b_def by blast
  have d: "dom (tier1_data b) = TIER1_COUNTRIES" "dom (tier2_data b) = TIER2_COUNTRIES"
    unfolding b_def using reachable_dom by simp_all
  have v: "\<forall>c l. tier1_data b c = Some l \<longrightarrow> valid_ranges l"
      "\<forall>c l. tier2_data b c = Some l \<longrightarrow> valid_ranges l" "valid_ranges (tier3_data b)"
    unfolding b_def using reachable_valid[OF assms] by simp_all
  have "\<forall>i j. i < length table \<and> j < length table \<and> i \<noteq> j
                    \<and> entry_code (table ! i) = entry_code (table ! j)
                 \<longrightarrow> entry_addresses (table ! i) \<inter> entry_addresses (table ! j) = {}"
    using build_table_same_code_disjoint[OF d v tab] by blast
  then show ?thesis using tab unfolding main_table_def b_def by blast
qed

theorem same_code_entries_disjoint_witness:
  "main_table sample_country_map sample_ip_network sample_rows = Inr sample_table
   \<and> entry_code (sample_table ! 1) = entry_code (sample_table ! 2)
   \<and> entry_addresses (sample_table ! 1) \<inter> entry_addresses (sample_table ! 2) = {}"
proof -
  from same_code_entries_disjoint[OF sample_ip_network_valid, of sample_country_map sample_rows]
  obtain table where tab: "main_table sample_country_map sample_ip_network sample_rows = Inr table"
    and disj: "\<forall>i j. i < length table \<and> j < length table \<and> i \<noteq> j
                    \<and> entry_code (table ! i) = entry_code (table ! j)
                 \<longrightarrow> entry_addresses (table ! i) \<inter> entry_addresses (table ! j) = {}"
    by blast
  from tab have table: "table = sample_table" using sample_main_table by simp
  have code: "entry_code (sample_table ! 1) = entry_code (sample_table ! 2)"
    by (simp add: entry_code_def)
  have "(1::nat) < length sample_table \<and> (2::nat) < length sample_table \<and> (1::nat) \<noteq> 2" by simp
  with disj code have "entry_addresses (sample_table ! 1) \<inter> entry_addresses (sample_table ! 2) = {}"
    unfolding table by blast
  with code sample_main_table show ?thesis by blast
qed

end
